theory Spec2Isabelle
  imports
    Main
    "HOL-Library.AList"
    "HOL-Library.Sublist"
    "HOL-Library.Char_ord"
    "HOL-Library.List_Lexorder"
    "HOL-Library.Option_ord"
    "HOL-Library.Product_Lexorder"
begin

section \<open>Text primitives of the JavaScript and SQL sides\<close>

text \<open>
  Strings are lists of 8-bit characters and are read as ASCII text: case mapping touches
  the 26 letters only, and the white space of \<^verbatim>\<open>String.prototype.trim\<close> and of the
  regular expression class \<^verbatim>\<open>\s\<close> is TAB, LF, VT, FF, CR and SPACE. A value that
  JavaScript may hold as \<^verbatim>\<open>null\<close> or \<^verbatim>\<open>undefined\<close> (an SQL NULL read from the
  store, a missing argument) is an \<open>option\<close> with \<open>None\<close> for the missing value.
\<close>

definition lower_letters :: string where
  "lower_letters = ''abcdefghijklmnopqrstuvwxyz''"

definition upper_letters :: string where
  "upper_letters = ''ABCDEFGHIJKLMNOPQRSTUVWXYZ''"

definition digit_chars :: string where
  "digit_chars = ''0123456789''"

definition is_space :: "char \<Rightarrow> bool" where
  "is_space c \<longleftrightarrow> c \<in> set [CHR 0x09, CHR 0x0A, CHR 0x0B, CHR 0x0C, CHR 0x0D, CHR '' '']"

definition upper_char :: "char \<Rightarrow> char" where
  "upper_char c = (case map_of (zip lower_letters upper_letters) c of Some u \<Rightarrow> u | None \<Rightarrow> c)"

definition lower_char :: "char \<Rightarrow> char" where
  "lower_char c = (case map_of (zip upper_letters lower_letters) c of Some l \<Rightarrow> l | None \<Rightarrow> c)"

text \<open>\<^verbatim>\<open>s.toUpperCase()\<close> and \<^verbatim>\<open>s.trim()\<close> of JavaScript.\<close>

definition toUpperCase :: "string \<Rightarrow> string" where
  "toUpperCase s = map upper_char s"

definition trim :: "string \<Rightarrow> string" where
  "trim s = rev (dropWhile is_space (rev (dropWhile is_space s)))"

text \<open>
  \<^verbatim>\<open>s.split(sep)\<close> for a separator that is not empty: the pieces of \<open>s\<close> between
  the occurrences of \<open>sep\<close>, found left to right without overlap. The accumulator holds
  the current piece, reversed.
\<close>

function split_from :: "string \<Rightarrow> string \<Rightarrow> string \<Rightarrow> string list" where
  "split_from sep acc [] = [rev acc]"
| "split_from sep acc (c # cs) =
     (if sep \<noteq> [] \<and> prefix sep (c # cs)
      then rev acc # split_from sep [] (drop (length sep) (c # cs))
      else split_from sep (c # acc) cs)"
  by pat_completeness auto
termination
  by (relation "measure (\<lambda>(sep, acc, s). length s)") auto

definition js_split :: "string \<Rightarrow> string \<Rightarrow> string list" where
  "js_split s sep = split_from sep [] s"

text \<open>The character classes \<^verbatim>\<open>[A-Z0-9_]\<close> and \<^verbatim>\<open>[A-Za-z0-9_]\<close>.\<close>

definition is_upper_word_char :: "char \<Rightarrow> bool" where
  "is_upper_word_char c \<longleftrightarrow> c \<in> set (upper_letters @ digit_chars @ ''_'')"

definition is_word_char :: "char \<Rightarrow> bool" where
  "is_word_char c \<longleftrightarrow> c \<in> set (upper_letters @ lower_letters @ digit_chars @ ''_'')"

text \<open>\<^verbatim>\<open>/^[A-Z0-9_]+$/.test(s)\<close>: the whole string, at least one character.\<close>

definition test_upper_word :: "string \<Rightarrow> bool" where
  "test_upper_word s \<longleftrightarrow> s \<noteq> [] \<and> list_all is_upper_word_char s"

text \<open>
  \<^verbatim>\<open>s.match(/^\s*([A-Za-z0-9_]+)/)\<close>: \<open>None\<close> when there is no match, otherwise the
  captured group, the longest run of word characters after the leading white space.
\<close>

definition match_leading_word :: "string \<Rightarrow> string option" where
  "match_leading_word s =
     (let run = takeWhile is_word_char (dropWhile is_space s)
      in if run = [] then None else Some run)"

section \<open>Helpers of server.js\<close>

definition thursday_spellings :: "string list" where
  "thursday_spellings = [''THU'', ''THUR'', ''THURS'', ''THURSDAY'']"

text \<open>
  \<^verbatim>\<open>normalizeDay(d)\<close>. A falsy argument (\<open>None\<close> or the empty string) is returned as
  it is.
\<close>

definition normalizeDay :: "string option \<Rightarrow> string option" where
  "normalizeDay d =
     (case d of
        None \<Rightarrow> None
      | Some x \<Rightarrow>
          if x = [] then Some x
          else
            let up = toUpperCase (trim x)
            in if up \<in> set thursday_spellings then Some ''THUR'' else Some (take 3 up))"

text \<open>
  \<^verbatim>\<open>extractSubjectCode(activityDescription)\<close>. \<^verbatim>\<open>parts[0]\<close> is the first piece of
  the split; the test \<^verbatim>\<open>parts && parts[0]\<close> fails for an empty first piece.
\<close>

definition extractSubjectCode :: "string option \<Rightarrow> string" where
  "extractSubjectCode activityDescription =
     (case activityDescription of
        None \<Rightarrow> ''N/A''
      | Some d \<Rightarrow>
          if d = [] then ''N/A''
          else
            let s = trim d;
                parts = js_split s '' - '';
                fallback = (case match_leading_word s of
                              Some m \<Rightarrow> toUpperCase m
                            | None \<Rightarrow> ''N/A'')
            in (case parts of
                  [] \<Rightarrow> fallback
                | p0 # _ \<Rightarrow>
                    if p0 \<noteq> [] \<and> test_upper_word (toUpperCase (trim p0))
                    then toUpperCase (trim p0)
                    else fallback))"

section \<open>The external store\<close>

text \<open>
  The tables the queries of server.js read, each a list of rows in storage order. The
  columns the code guards against NULL (\<^verbatim>\<open>IFNULL\<close>, \<^verbatim>\<open>COALESCE\<close>, \<^verbatim>\<open>x || ...\<close>)
  or only passes on are nullable; identifiers, the day, the slot number and the
  \<^verbatim>\<open>is_free\<close> flag are not.
\<close>

record teacher_attendance_row =
  ta_teacher_id :: string
  ta_teacher_name :: "string option"
  ta_attendance :: "string option"

record teacher_timetable_row =
  tt_teacher_id :: string
  tt_day_of_week :: string
  tt_slot_id :: int
  tt_activity_description :: "string option"
  tt_room_location :: "string option"
  tt_is_free :: bool

record time_slots_row =
  ts_slot_id :: int
  ts_time_range :: "string option"

record teacher_subject_assignment_row =
  tsa_teacher_id :: string
  tsa_subject_code :: string

record subjects_row =
  sub_subject_code :: string
  sub_subject_name :: "string option"

record database =
  teacher_attendance :: "teacher_attendance_row list"
  teacher_timetable :: "teacher_timetable_row list"
  time_slots :: "time_slots_row list"
  teacher_subject_assignment :: "teacher_subject_assignment_row list"
  subjects :: "subjects_row list"

subsection \<open>SQL functions\<close>

text \<open>
  \<^verbatim>\<open>=\<close> and \<^verbatim>\<open><>\<close> compare the two texts character by character and \<^verbatim>\<open>ORDER BY\<close>
  on a text column is the lexicographic order of the characters, with NULL first (a
  binary collation). A comparison with NULL is not true. \<^verbatim>\<open>ORDER BY\<close> is a stable
  sort of the rows in the order the joins produce them, and the joins produce them as
  nested loops over the tables, left to right; SQL itself leaves the order of ties open.
\<close>

definition UPPER :: "string \<Rightarrow> string" where
  "UPPER s = map upper_char s"

definition LOWER :: "string \<Rightarrow> string" where
  "LOWER s = map lower_char s"

text \<open>\<^verbatim>\<open>TRIM(s)\<close> removes leading and trailing spaces (and no other white space).\<close>

definition TRIM :: "string \<Rightarrow> string" where
  "TRIM s = rev (dropWhile (\<lambda>c. c = CHR '' '') (rev (dropWhile (\<lambda>c. c = CHR '' '') s)))"

text \<open>
  \<^verbatim>\<open>SUBSTRING_INDEX(s, delim, 1)\<close>: the text before the first occurrence of
  \<open>delim\<close>, all of \<open>s\<close> when there is none.
\<close>

fun SUBSTRING_INDEX_1 :: "string \<Rightarrow> string \<Rightarrow> string" where
  "SUBSTRING_INDEX_1 [] delim = []"
| "SUBSTRING_INDEX_1 (c # cs) delim =
     (if prefix delim (c # cs) then [] else c # SUBSTRING_INDEX_1 cs delim)"

text \<open>
  \<^verbatim>\<open>COALESCE(v1, ..., vn, literal)\<close> with a literal last argument, and
  \<^verbatim>\<open>IFNULL(v, literal)\<close>, its case \<open>n = 1\<close>.
\<close>

fun COALESCE :: "'a option list \<Rightarrow> 'a \<Rightarrow> 'a" where
  "COALESCE [] lit = lit"
| "COALESCE (None # vs) lit = COALESCE vs lit"
| "COALESCE (Some v # vs) lit = v"

definition IFNULL :: "'a option \<Rightarrow> 'a \<Rightarrow> 'a" where
  "IFNULL v lit = COALESCE [v] lit"

text \<open>\<^verbatim>\<open>GROUP_CONCAT(... SEPARATOR sep)\<close> joins the values of a group.\<close>

fun concat_with :: "string \<Rightarrow> string list \<Rightarrow> string" where
  "concat_with sep [] = []"
| "concat_with sep [x] = x"
| "concat_with sep (x # y # ys) = x @ sep @ concat_with sep (y # ys)"

subsection \<open>The common table expression subjectsAggCTE\<close>

record subjects_agg_row =
  sa_teacher_id :: string
  sa_subjects_codes :: string
  sa_subjects_detail :: string

text \<open>
  \<^verbatim>\<open>teacher_subject_assignment tsa LEFT JOIN subjects s ON s.subject_code = tsa.subject_code\<close>:
  each assignment with the name of every subject row of its code, or with NULL when
  there is none.
\<close>

definition tsa_left_join_subjects ::
  "database \<Rightarrow> (teacher_subject_assignment_row \<times> string option) list" where
  "tsa_left_join_subjects db =
     [(tsa, nm).
        tsa \<leftarrow> teacher_subject_assignment db,
        nm \<leftarrow> (let ms = filter (\<lambda>s. sub_subject_code s = tsa_subject_code tsa) (subjects db)
               in if ms = [] then [None] else map sub_subject_name ms)]"

text \<open>
  \<^verbatim>\<open>GROUP BY tsa.teacher_id\<close>, one row per identifier. \<^verbatim>\<open>subjects_codes\<close> is the
  distinct codes in ascending order joined by \<^verbatim>\<open>', '\<close>; \<^verbatim>\<open>subjects_detail\<close> is the distinct
  texts \<^verbatim>\<open>code - name\<close> in ascending order of the code joined by \<^verbatim>\<open>' | '\<close>. The
  server's length limit on \<^verbatim>\<open>GROUP_CONCAT\<close> is not part of the model.
\<close>

definition subjects_agg :: "database \<Rightarrow> subjects_agg_row list" where
  "subjects_agg db =
     (let joined = tsa_left_join_subjects db
      in map (\<lambda>tid.
                let grp = filter (\<lambda>(tsa, nm). tsa_teacher_id tsa = tid) joined;
                    codes = sort (remdups (map (\<lambda>(tsa, nm). tsa_subject_code tsa) grp));
                    details = remdups (map snd (sort_key fst
                      (map (\<lambda>(tsa, nm).
                              (tsa_subject_code tsa,
                               tsa_subject_code tsa @ '' - '' @ COALESCE [nm] []))
                           grp)))
                in \<lparr> sa_teacher_id = tid,
                     sa_subjects_codes = concat_with '', '' codes,
                     sa_subjects_detail = concat_with '' | '' details \<rparr>)
             (remdups (map (\<lambda>(tsa, nm). tsa_teacher_id tsa) joined)))"

text \<open>
  \<^verbatim>\<open>LEFT JOIN subjects_agg sa ON LOWER(sa.teacher_id) = LOWER(t.teacher_id)\<close>: the
  groups of a teacher, or one NULL row.
\<close>

definition left_join_subjects_agg :: "database \<Rightarrow> string \<Rightarrow> subjects_agg_row option list" where
  "left_join_subjects_agg db tid =
     (let ms = filter (\<lambda>sa. LOWER (sa_teacher_id sa) = LOWER tid) (subjects_agg db)
      in if ms = [] then [None] else map Some ms)"

subsection \<open>The four queries of findSubstitutes\<close>

text \<open>\<^verbatim>\<open>qAttendance\<close>: the first row of the teacher, if any (\<^verbatim>\<open>LIMIT 1\<close>).\<close>

definition qAttendance :: "database \<Rightarrow> string \<Rightarrow> teacher_attendance_row list" where
  "qAttendance db p1 =
     take 1 [ta. ta \<leftarrow> teacher_attendance db, LOWER (ta_teacher_id ta) = LOWER p1]"

text \<open>
  \<^verbatim>\<open>qAbsentTeacherInfo\<close>: the column \<^verbatim>\<open>absent_teacher_subject_detail\<close> of its rows.
  Both aggregates of a group are texts, so the first argument of the \<^verbatim>\<open>COALESCE\<close>
  decides whenever the teacher has a group.
\<close>

definition qAbsentTeacherInfo :: "database \<Rightarrow> string \<Rightarrow> string list" where
  "qAbsentTeacherInfo db p1 =
     take 1
       [COALESCE [map_option sa_subjects_detail sa, map_option sa_subjects_codes sa]
          ''Subject(s) Not Assigned''.
          ta \<leftarrow> teacher_attendance db,
          sa \<leftarrow> left_join_subjects_agg db (ta_teacher_id ta),
          LOWER (ta_teacher_id ta) = LOWER p1]"

text \<open>
  The rows both \<^verbatim>\<open>qClasses\<close> and the subquery \<^verbatim>\<open>c\<close> of \<^verbatim>\<open>qSubs\<close> select, with the
  same text in both: the teacher's timetable rows of the day that are not free, each
  joined to the rows of its slot in \<^verbatim>\<open>time_slots\<close>. \<^verbatim>\<open>qClasses\<close> adds the column
  \<^verbatim>\<open>is_lab\<close> and the order.
\<close>

record c_row =
  c_absent_teacher_id :: string
  c_day_of_week :: string
  c_slot_id :: int
  c_time_range :: "string option"
  c_class_to_cover :: "string option"
  c_room_location :: "string option"

record class_row = c_row +
  c_is_lab :: bool

definition select_c :: "teacher_timetable_row \<Rightarrow> time_slots_row \<Rightarrow> c_row" where
  "select_c tt ts =
     \<lparr> c_absent_teacher_id = tt_teacher_id tt,
       c_day_of_week = tt_day_of_week tt,
       c_slot_id = tt_slot_id tt,
       c_time_range = ts_time_range ts,
       c_class_to_cover = tt_activity_description tt,
       c_room_location = tt_room_location tt \<rparr>"

definition classes_to_cover :: "database \<Rightarrow> string \<Rightarrow> string \<Rightarrow> c_row list" where
  "classes_to_cover db p1 p2 =
     [select_c tt ts.
        tt \<leftarrow> teacher_timetable db,
        ts \<leftarrow> time_slots db,
        ts_slot_id ts = tt_slot_id tt,
        LOWER (tt_teacher_id tt) = LOWER p1
          \<and> UPPER (tt_day_of_week tt) = UPPER p2
          \<and> tt_is_free tt = False]"

text \<open>\<^verbatim>\<open>UPPER(IFNULL(tt.activity_description, '')) LIKE '%LAB%'\<close>.\<close>

definition like_LAB :: "string option \<Rightarrow> bool" where
  "like_LAB d \<longleftrightarrow> sublist ''LAB'' (UPPER (IFNULL d []))"

definition select_qClasses :: "c_row \<Rightarrow> class_row" where
  "select_qClasses c =
     \<lparr> c_absent_teacher_id = c_absent_teacher_id c,
       c_day_of_week = c_day_of_week c,
       c_slot_id = c_slot_id c,
       c_time_range = c_time_range c,
       c_class_to_cover = c_class_to_cover c,
       c_room_location = c_room_location c,
       c_is_lab = like_LAB (c_class_to_cover c) \<rparr>"

definition qClasses :: "database \<Rightarrow> string \<Rightarrow> string \<Rightarrow> class_row list" where
  "qClasses db p1 p2 = sort_key c_slot_id (map select_qClasses (classes_to_cover db p1 p2))"

text \<open>The rows of \<^verbatim>\<open>qSubs\<close>.\<close>

record sub_row =
  r_absent_teacher_id :: string
  r_slot_id :: int
  r_time_range :: "string option"
  r_class_to_cover :: "string option"
  r_room_location :: "string option"
  r_substitute_teacher_id :: string
  r_substitute_teacher_name :: "string option"
  r_subjects_codes :: string
  r_subjects_detail :: string
  r_substitution_priority :: string

definition BEST_FIT :: string where
  "BEST_FIT = ''BEST FIT (Same Subject)''"

definition GOOD_FIT :: string where
  "GOOD_FIT = ''GOOD FIT (Free, Any Subject)''"

text \<open>
  The \<^verbatim>\<open>EXISTS\<close> of the \<^verbatim>\<open>CASE\<close>: the substitute has an assignment whose code is
  the class text before \<^verbatim>\<open>' - '\<close>. A NULL class text compares to nothing.
\<close>

definition same_subject_exists :: "database \<Rightarrow> string \<Rightarrow> string option \<Rightarrow> bool" where
  "same_subject_exists db s_teacher_id class_to_cover \<longleftrightarrow>
     (\<exists>tsa \<in> set (teacher_subject_assignment db).
        LOWER (tsa_teacher_id tsa) = LOWER s_teacher_id
        \<and> Some (UPPER (TRIM (tsa_subject_code tsa)))
            = map_option (\<lambda>d. UPPER (SUBSTRING_INDEX_1 d '' - '')) class_to_cover)"

text \<open>The two \<^verbatim>\<open>EXISTS\<close> of the \<^verbatim>\<open>WHERE\<close>: a row \<^verbatim>\<open>tt_free\<close>, a row \<^verbatim>\<open>tt_busy\<close>.\<close>

definition timetable_row_exists ::
  "database \<Rightarrow> string \<Rightarrow> string \<Rightarrow> int \<Rightarrow> bool \<Rightarrow> bool" where
  "timetable_row_exists db s_teacher_id day slot free \<longleftrightarrow>
     (\<exists>tt \<in> set (teacher_timetable db).
        LOWER (tt_teacher_id tt) = LOWER s_teacher_id
        \<and> UPPER (tt_day_of_week tt) = UPPER day
        \<and> tt_slot_id tt = slot
        \<and> tt_is_free tt = free)"

text \<open>
  \<^verbatim>\<open>qSubs\<close>. Its text has two placeholders, in the subquery \<^verbatim>\<open>c\<close>; the call passes
  the identifier and the day twice, and the first pair fills them. The second component
  of the sort key puts the rows of \<^verbatim>\<open>BEST FIT\<close> first
  (\<^verbatim>\<open>(substitution_priority = 'BEST FIT (Same Subject)') DESC\<close>).
\<close>

definition qSubs_order :: "sub_row \<Rightarrow> int \<times> nat \<times> string option" where
  "qSubs_order r =
     (r_slot_id r,
      if r_substitution_priority r = BEST_FIT then 0 else 1,
      r_substitute_teacher_name r)"

text \<open>The \<^verbatim>\<open>SELECT\<close> list, for a class \<open>c\<close>, a teacher \<open>s\<close> and the teacher's group \<open>sa\<close>.\<close>

definition select_qSubs ::
  "database \<Rightarrow> c_row \<Rightarrow> teacher_attendance_row \<Rightarrow> subjects_agg_row option \<Rightarrow> sub_row" where
  "select_qSubs db c s sa =
     \<lparr> r_absent_teacher_id = c_absent_teacher_id c,
       r_slot_id = c_slot_id c,
       r_time_range = c_time_range c,
       r_class_to_cover = c_class_to_cover c,
       r_room_location = c_room_location c,
       r_substitute_teacher_id = ta_teacher_id s,
       r_substitute_teacher_name = ta_teacher_name s,
       r_subjects_codes = COALESCE [map_option sa_subjects_codes sa] [],
       r_subjects_detail = COALESCE [map_option sa_subjects_detail sa] [],
       r_substitution_priority =
         (if same_subject_exists db (ta_teacher_id s) (c_class_to_cover c)
          then BEST_FIT else GOOD_FIT) \<rparr>"

definition qSubs :: "database \<Rightarrow> string \<Rightarrow> string \<Rightarrow> sub_row list" where
  "qSubs db p1 p2 =
     sort_key qSubs_order
       [select_qSubs db c s sa.
          c \<leftarrow> classes_to_cover db p1 p2,
          s \<leftarrow> teacher_attendance db,
          map_option (\<lambda>a. UPPER (TRIM a)) (ta_attendance s) = Some ''PRESENT''
            \<and> LOWER (ta_teacher_id s) \<noteq> LOWER (c_absent_teacher_id c),
          sa \<leftarrow> left_join_subjects_agg db (ta_teacher_id s),
          timetable_row_exists db (ta_teacher_id s) (c_day_of_week c) (c_slot_id c) True
            \<or> \<not> timetable_row_exists db (ta_teacher_id s) (c_day_of_week c) (c_slot_id c) False]"

section \<open>findSubstitutes\<close>

subsection \<open>The report\<close>

record substitute =
  substitute_id :: string
  substitute_name :: "string option"
  priority :: string
  subjects_codes :: string
  subjects_detail :: string

record coverage_slot =
  slot_id :: int
  slot :: "string option"
  class_info :: "string option"
  subject :: string
  room :: "string option"
  is_lab :: bool
  available_substitutes :: "substitute list"

text \<open>
  The field \<^verbatim>\<open>note\<close> of the returned object is \<open>note_text\<close>, \<open>None\<close> when it is not
  set. Where the function holds the subject detail in a variable of the field's name,
  the variable is \<open>subjectDetail\<close> here.
\<close>

record report =
  absentName :: string
  absentTeacherSubjectDetail :: string
  schedule :: "coverage_slot list"
  note_text :: "string option"

subsection \<open>Grouping by key\<close>

text \<open>
  A slot number as the template literal prints it, in decimal. \<^verbatim>\<open>null\<close> prints as the
  text \<^verbatim>\<open>null\<close>.
\<close>

fun show_nat :: "nat \<Rightarrow> string" where
  "show_nat n =
     (if n < 10 then [digit_chars ! n]
      else show_nat (n div 10) @ [digit_chars ! (n mod 10)])"

definition show_int :: "int \<Rightarrow> string" where
  "show_int i = (if i < 0 then CHR ''-'' # show_nat (nat (- i)) else show_nat (nat i))"

definition show_text :: "string option \<Rightarrow> string" where
  "show_text v = (case v of None \<Rightarrow> ''null'' | Some s \<Rightarrow> s)"

text \<open>The key \<^verbatim>\<open>`${row.slot_id}|${row.class_to_cover}`\<close>.\<close>

definition key_of :: "int \<Rightarrow> string option \<Rightarrow> string" where
  "key_of sid cls = show_int sid @ ''|'' @ show_text cls"

text \<open>\<^verbatim>\<open>x || null\<close> for a text or \<^verbatim>\<open>null\<close>: the empty text is falsy.\<close>

definition or_null :: "string option \<Rightarrow> string option" where
  "or_null v = (case v of None \<Rightarrow> None | Some s \<Rightarrow> if s = [] then None else Some s)"

text \<open>
  \<^verbatim>\<open>byKey\<close> is a \<^verbatim>\<open>Map\<close>, which keeps its keys in the order of their first insertion:
  an association list, with \<^verbatim>\<open>has\<close> and \<^verbatim>\<open>get\<close> as \<^const>\<open>map_of\<close> and \<^verbatim>\<open>set\<close> as
  \<^const>\<open>AList.update\<close>. The object a key maps to is changed in place by \<^verbatim>\<open>push\<close>, which
  is an update of the entry.
\<close>

type_synonym byKey = "(string \<times> coverage_slot) list"

definition new_slot :: "class_row \<Rightarrow> coverage_slot" where
  "new_slot row =
     \<lparr> slot_id = c_slot_id row,
       slot = c_time_range row,
       class_info = c_class_to_cover row,
       subject = extractSubjectCode (c_class_to_cover row),
       room = or_null (c_room_location row),
       is_lab = c_is_lab row,
       available_substitutes = [] \<rparr>"

fun group_classes :: "class_row list \<Rightarrow> byKey \<Rightarrow> byKey" where
  "group_classes [] byKey = byKey"
| "group_classes (row # classes) byKey =
     (let key = key_of (c_slot_id row) (c_class_to_cover row)
      in if map_of byKey key = None
         then group_classes classes (AList.update key (new_slot row) byKey)
         else group_classes classes byKey)"

definition new_substitute :: "sub_row \<Rightarrow> substitute" where
  "new_substitute s =
     \<lparr> substitute_id = r_substitute_teacher_id s,
       substitute_name = r_substitute_teacher_name s,
       priority = r_substitution_priority s,
       subjects_codes = r_subjects_codes s,
       subjects_detail = r_subjects_detail s \<rparr>"

fun group_subs :: "sub_row list \<Rightarrow> byKey \<Rightarrow> byKey" where
  "group_subs [] byKey = byKey"
| "group_subs (s # subs) byKey =
     (let key = key_of (r_slot_id s) (r_class_to_cover s)
      in (case map_of byKey key of
            Some cs \<Rightarrow>
              group_subs subs
                (AList.update key
                   (cs\<lparr>available_substitutes := available_substitutes cs @ [new_substitute s]\<rparr>)
                   byKey)
          | None \<Rightarrow> group_subs subs byKey))"

text \<open>
  \<^verbatim>\<open>Array.from(byKey.values()).sort((a,b) => a.slot_id - b.slot_id)\<close>; the sort of an
  array is stable.
\<close>

definition build_schedule :: "class_row list \<Rightarrow> sub_row list \<Rightarrow> coverage_slot list" where
  "build_schedule classes subs =
     sort_key slot_id (map snd (group_subs subs (group_classes classes [])))"

subsection \<open>The store's reads and their failures\<close>

text \<open>
  \<^verbatim>\<open>sqldb.query\<close> either returns the rows or rejects with an error of the driver. A
  store is the tables together with, for each of the four reads, the error it rejects
  with, if it does.
\<close>

datatype read = ReadAttendance | ReadAbsentTeacherInfo | ReadClasses | ReadSubs

record store =
  tables :: database
  rejects :: "read \<Rightarrow> string option"

definition query :: "store \<Rightarrow> read \<Rightarrow> 'rows \<Rightarrow> string + 'rows" where
  "query st r rows = (case rejects st r of Some e \<Rightarrow> Inl e | None \<Rightarrow> Inr rows)"

text \<open>
  What a call throws: an \<^verbatim>\<open>Error\<close> the function creates itself, with its message, or
  the driver's error, passed on as it came.
\<close>

datatype thrown = Error string | DriverError string

subsection \<open>The function\<close>

text \<open>\<^verbatim>\<open>x || ''\<close> for an argument that is a text or missing.\<close>

definition or_empty :: "string option \<Rightarrow> string" where
  "or_empty v = (case v of None \<Rightarrow> [] | Some s \<Rightarrow> s)"

definition falsy :: "string option \<Rightarrow> bool" where
  "falsy v \<longleftrightarrow> v = None \<or> v = Some []"

text \<open>
  The body of the \<^verbatim>\<open>try\<close> block: the two reads of the second phase and the grouping. A
  rejected read leaves the block with the driver's error.
\<close>

definition try_block ::
  "store \<Rightarrow> string \<Rightarrow> string \<Rightarrow> string \<Rightarrow> string \<Rightarrow> string + report" where
  "try_block st absentTeacherId targetDay absentTeacherName subjectDetail =
     (case query st ReadClasses (qClasses (tables st) absentTeacherId targetDay) of
        Inl e \<Rightarrow> Inl e
      | Inr classes \<Rightarrow>
          (if classes = []
           then Inr \<lparr> absentName = absentTeacherName,
                      absentTeacherSubjectDetail = subjectDetail,
                      schedule = [],
                      note_text = None \<rparr>
           else (case query st ReadSubs (qSubs (tables st) absentTeacherId targetDay) of
                   Inl e \<Rightarrow> Inl e
                 | Inr subs \<Rightarrow>
                     Inr \<lparr> absentName = absentTeacherName,
                           absentTeacherSubjectDetail = subjectDetail,
                           schedule = build_schedule classes subs,
                           note_text = None \<rparr>)))"

text \<open>The \<^verbatim>\<open>catch\<close>: whatever the block threw, a new \<^verbatim>\<open>Error\<close> with a fixed message.\<close>

definition try_catch :: "string + report \<Rightarrow> thrown + report" where
  "try_catch r =
     (case r of
        Inl e \<Rightarrow> Inl (Error ''Database query failed during substitution search.'')
      | Inr rep \<Rightarrow> Inr rep)"

text \<open>
  The part after the attendance row is found: the read of the subject detail, outside
  the \<^verbatim>\<open>try\<close> block, the exit for a teacher who is not absent, and the block.
\<close>

definition resolve_found ::
  "store \<Rightarrow> string \<Rightarrow> string \<Rightarrow> teacher_attendance_row \<Rightarrow> thrown + report" where
  "resolve_found st absentTeacherId targetDay teacherRow =
     (let isAbsent = (toUpperCase (trim (or_empty (ta_attendance teacherRow))) = ''ABSENT'');
          absentTeacherName =
            (if falsy (ta_teacher_name teacherRow)
             then ''Teacher ID: '' @ absentTeacherId
             else or_empty (ta_teacher_name teacherRow))
      in (case query st ReadAbsentTeacherInfo (qAbsentTeacherInfo (tables st) absentTeacherId) of
            Inl e \<Rightarrow> Inl (DriverError e)
          | Inr absentInfo \<Rightarrow>
              (let subjectDetail =
                     (case absentInfo of [] \<Rightarrow> ''N/A'' | detail # _ \<Rightarrow> detail)
               in if \<not> isAbsent
                  then Inr \<lparr> absentName = absentTeacherName,
                             absentTeacherSubjectDetail = subjectDetail,
                             schedule = [],
                             note_text =
                               Some ''Teacher is not marked as ABSENT in attendance table'' \<rparr>
                  else try_catch
                         (try_block st absentTeacherId targetDay absentTeacherName
                            subjectDetail))))"

definition findSubstitutes :: "store \<Rightarrow> string option \<Rightarrow> string option \<Rightarrow> thrown + report" where
  "findSubstitutes st absentTeacherIdRaw targetDayRaw =
     (let absentTeacherId = trim (or_empty absentTeacherIdRaw);
          targetDay = normalizeDay (Some (or_empty targetDayRaw))
      in if absentTeacherId = [] then Inl (Error ''Invalid absent teacher ID.'')
         else if falsy targetDay then Inl (Error ''Invalid or missing day.'')
         else (case query st ReadAttendance (qAttendance (tables st) absentTeacherId) of
                 Inl e \<Rightarrow> Inl (DriverError e)
               | Inr attRows \<Rightarrow>
                   (case attRows of
                      [] \<Rightarrow>
                        Inr \<lparr> absentName = ''Teacher ID: '' @ absentTeacherId,
                              absentTeacherSubjectDetail = ''N/A'',
                              schedule = [],
                              note_text = Some ''Teacher not found'' \<rparr>
                    | teacherRow # _ \<Rightarrow>
                        resolve_found st absentTeacherId (or_empty targetDay) teacherRow)))"

section \<open>Notions the properties are stated with\<close>

subsection \<open>The leading segment of a class description\<close>

text \<open>
  The first position at which the separator occurs in a text, and the leading segment
  of a description: the text before the first \<^verbatim>\<open>' - '\<close>, the whole text when it has
  none.
\<close>

definition first_occurrence :: "string \<Rightarrow> string \<Rightarrow> nat option" where
  "first_occurrence sep d = find (\<lambda>n. prefix sep (drop n d)) [0..<length d]"

definition leading_segment :: "string \<Rightarrow> string" where
  "leading_segment d = (case first_occurrence '' - '' d of None \<Rightarrow> d | Some n \<Rightarrow> take n d)"

text \<open>
  The rule for the subject code in the specification's words, applied to the
  description as it is given: N/A for an empty input; the first segment, trimmed and in
  upper case, when it is made of letters, digits and underscores; otherwise the leading
  run of letters, digits and underscores of the text in upper case, N/A when there is
  no such run.
\<close>

definition extractSubjectCode_spec :: "string option \<Rightarrow> string" where
  "extractSubjectCode_spec description =
     (case description of
        None \<Rightarrow> ''N/A''
      | Some d \<Rightarrow>
          if d = [] then ''N/A''
          else
            let seg = toUpperCase (trim (leading_segment d))
            in if seg \<noteq> [] \<and> list_all is_word_char seg then seg
               else if takeWhile is_word_char d = [] then ''N/A''
               else toUpperCase (takeWhile is_word_char d))"

subsection \<open>Keys, first rows and filled slots\<close>

abbreviation class_key :: "class_row \<Rightarrow> string" where
  "class_key row \<equiv> key_of (c_slot_id row) (c_class_to_cover row)"

abbreviation sub_key :: "sub_row \<Rightarrow> string" where
  "sub_key s \<equiv> key_of (r_slot_id s) (r_class_to_cover s)"

text \<open>The rows of a list whose key no earlier row (and no key of \<open>seen\<close>) has.\<close>

fun first_of_key :: "string list \<Rightarrow> class_row list \<Rightarrow> class_row list" where
  "first_of_key seen [] = []"
| "first_of_key seen (row # rows) =
     (if class_key row \<in> set seen then first_of_key seen rows
      else row # first_of_key (class_key row # seen) rows)"

text \<open>The slot of a row with the substitutes of the candidate rows of its key, in their order.\<close>

definition filled_slot :: "sub_row list \<Rightarrow> class_row \<Rightarrow> coverage_slot" where
  "filled_slot subs row =
     (new_slot row)
       \<lparr>available_substitutes :=
          map new_substitute (filter (\<lambda>s. sub_key s = class_key row) subs)\<rparr>"

subsection \<open>Timetable entries of a teacher for a day and a slot\<close>

text \<open>
  A timetable row is an entry of a teacher for a day and a slot when it matches the
  three the way the queries match them: the identifier without regard to case, the day
  without regard to case, the slot number.
\<close>

definition entry_for :: "string \<Rightarrow> string \<Rightarrow> int \<Rightarrow> teacher_timetable_row \<Rightarrow> bool" where
  "entry_for teacher day slot_no tt \<longleftrightarrow>
     LOWER (tt_teacher_id tt) = LOWER teacher
     \<and> UPPER (tt_day_of_week tt) = UPPER day
     \<and> tt_slot_id tt = slot_no"

text \<open>The data model's rule that a teacher has at most one entry per day and slot.\<close>

definition one_entry_per_slot :: "database \<Rightarrow> bool" where
  "one_entry_per_slot db \<longleftrightarrow>
     distinct (map (\<lambda>tt. (LOWER (tt_teacher_id tt), UPPER (tt_day_of_week tt), tt_slot_id tt))
                   (teacher_timetable db))"

text \<open>The attendance status of a row, trimmed and in upper case, is the given word.\<close>

definition status_is :: "string \<Rightarrow> teacher_attendance_row \<Rightarrow> bool" where
  "status_is word t \<longleftrightarrow> map_option (\<lambda>a. UPPER (TRIM a)) (ta_attendance t) = Some word"

section \<open>A school for the examples\<close>

text \<open>
  Alice (T1) is absent and teaches in slots 1 and 2 on Monday; on Tuesday her only
  entry is free. Bob is free in slot 1 and
  busy in slot 2, Carol is busy in slot 1 and has no entry for slot 2, Dan has no
  timetable at all and shares Alice's subject, Eve is on leave.
\<close>

definition ex_db :: database where
  "ex_db =
     \<lparr> teacher_attendance =
         [\<lparr>ta_teacher_id = ''T1'', ta_teacher_name = Some ''Alice'', ta_attendance = Some ''Absent''\<rparr>,
          \<lparr>ta_teacher_id = ''T2'', ta_teacher_name = Some ''Bob'', ta_attendance = Some ''PRESENT''\<rparr>,
          \<lparr>ta_teacher_id = ''T3'', ta_teacher_name = Some ''Carol'', ta_attendance = Some '' present ''\<rparr>,
          \<lparr>ta_teacher_id = ''T4'', ta_teacher_name = Some ''Dan'', ta_attendance = Some ''PRESENT''\<rparr>,
          \<lparr>ta_teacher_id = ''T5'', ta_teacher_name = Some ''Eve'', ta_attendance = Some ''LEAVE''\<rparr>],
       teacher_timetable =
         [\<lparr>tt_teacher_id = ''T1'', tt_day_of_week = ''MON'', tt_slot_id = 2,
            tt_activity_description = Some ''PHY - Lab work'', tt_room_location = Some ''L1'',
            tt_is_free = False\<rparr>,
          \<lparr>tt_teacher_id = ''T1'', tt_day_of_week = ''MON'', tt_slot_id = 1,
            tt_activity_description = Some ''MATH101 - Algebra'', tt_room_location = Some ''R1'',
            tt_is_free = False\<rparr>,
          \<lparr>tt_teacher_id = ''T1'', tt_day_of_week = ''MON'', tt_slot_id = 3,
            tt_activity_description = None, tt_room_location = None, tt_is_free = True\<rparr>,
          \<lparr>tt_teacher_id = ''T1'', tt_day_of_week = ''Tue'', tt_slot_id = 1,
            tt_activity_description = None, tt_room_location = None, tt_is_free = True\<rparr>,
          \<lparr>tt_teacher_id = ''T2'', tt_day_of_week = ''MON'', tt_slot_id = 1,
            tt_activity_description = None, tt_room_location = None, tt_is_free = True\<rparr>,
          \<lparr>tt_teacher_id = ''T2'', tt_day_of_week = ''MON'', tt_slot_id = 2,
            tt_activity_description = Some ''CHEM - Titration'', tt_room_location = None,
            tt_is_free = False\<rparr>,
          \<lparr>tt_teacher_id = ''T3'', tt_day_of_week = ''MON'', tt_slot_id = 1,
            tt_activity_description = Some ''ENG - Poetry'', tt_room_location = None,
            tt_is_free = False\<rparr>],
       time_slots =
         [\<lparr>ts_slot_id = 1, ts_time_range = Some ''09:00-10:00''\<rparr>,
          \<lparr>ts_slot_id = 2, ts_time_range = Some ''10:00-11:00''\<rparr>,
          \<lparr>ts_slot_id = 3, ts_time_range = Some ''11:00-12:00''\<rparr>],
       teacher_subject_assignment =
         [\<lparr>tsa_teacher_id = ''T1'', tsa_subject_code = ''MATH101''\<rparr>,
          \<lparr>tsa_teacher_id = ''T4'', tsa_subject_code = ''MATH101''\<rparr>,
          \<lparr>tsa_teacher_id = ''T2'', tsa_subject_code = ''PHY''\<rparr>,
          \<lparr>tsa_teacher_id = ''T2'', tsa_subject_code = ''CHEM''\<rparr>],
       subjects =
         [\<lparr>sub_subject_code = ''MATH101'', sub_subject_name = Some ''Algebra''\<rparr>,
          \<lparr>sub_subject_code = ''PHY'', sub_subject_name = Some ''Physics''\<rparr>] \<rparr>"

text \<open>A store whose reads all succeed, and one whose given read is rejected with a cause.\<close>

definition ex_store :: store where
  "ex_store = \<lparr> tables = ex_db, rejects = (\<lambda>r. None) \<rparr>"

definition rejecting_store :: "read \<Rightarrow> string \<Rightarrow> store" where
  "rejecting_store bad cause =
     \<lparr> tables = ex_db, rejects = (\<lambda>r. if r = bad then Some cause else None) \<rparr>"

text \<open>The two coverage slots of Alice's Monday, as the function reports them.\<close>

definition ex_dan :: "string \<Rightarrow> substitute" where
  "ex_dan tier =
     \<lparr> substitute_id = ''T4'', substitute_name = Some ''Dan'', priority = tier,
       subjects_codes = ''MATH101'', subjects_detail = ''MATH101 - Algebra'' \<rparr>"

definition ex_bob :: substitute where
  "ex_bob =
     \<lparr> substitute_id = ''T2'', substitute_name = Some ''Bob'', priority = GOOD_FIT,
       subjects_codes = ''CHEM, PHY'', subjects_detail = ''CHEM -  | PHY - Physics'' \<rparr>"

definition ex_carol :: substitute where
  "ex_carol =
     \<lparr> substitute_id = ''T3'', substitute_name = Some ''Carol'', priority = GOOD_FIT,
       subjects_codes = [], subjects_detail = [] \<rparr>"

definition ex_slot1 :: coverage_slot where
  "ex_slot1 =
     \<lparr> slot_id = 1, slot = Some ''09:00-10:00'', class_info = Some ''MATH101 - Algebra'',
       subject = ''MATH101'', room = Some ''R1'', is_lab = False,
       available_substitutes = [ex_dan BEST_FIT, ex_bob] \<rparr>"

definition ex_slot2 :: coverage_slot where
  "ex_slot2 =
     \<lparr> slot_id = 2, slot = Some ''10:00-11:00'', class_info = Some ''PHY - Lab work'',
       subject = ''PHY'', room = Some ''L1'', is_lab = True,
       available_substitutes = [ex_carol, ex_dan GOOD_FIT] \<rparr>"

definition ex_report :: report where
  "ex_report =
     \<lparr> absentName = ''Alice'', absentTeacherSubjectDetail = ''MATH101 - Algebra'',
       schedule = [ex_slot1, ex_slot2], note_text = None \<rparr>"

text \<open>
  A timetable in which the absent teacher's only class is in slot 9, which the slot
  table does not list.
\<close>

definition orphan_db :: database where
  "orphan_db =
     \<lparr> teacher_attendance =
         [\<lparr>ta_teacher_id = ''T1'', ta_teacher_name = Some ''Alice'', ta_attendance = Some ''ABSENT''\<rparr>],
       teacher_timetable =
         [\<lparr>tt_teacher_id = ''T1'', tt_day_of_week = ''MON'', tt_slot_id = 9,
            tt_activity_description = Some ''MATH101 - Algebra'', tt_room_location = Some ''R1'',
            tt_is_free = False\<rparr>],
       time_slots = [\<lparr>ts_slot_id = 1, ts_time_range = Some ''09:00-10:00''\<rparr>],
       teacher_subject_assignment = [],
       subjects = [] \<rparr>"

definition orphan_store :: store where
  "orphan_store = \<lparr> tables = orphan_db, rejects = (\<lambda>r. None) \<rparr>"

definition orphan_report :: report where
  "orphan_report =
     \<lparr> absentName = ''Alice'', absentTeacherSubjectDetail = ''Subject(s) Not Assigned'',
       schedule = [], note_text = None \<rparr>"

text \<open>
  The timetable entries of a teacher for a day that are not free, as the queries
  select them.
\<close>

definition classes_of :: "database \<Rightarrow> string \<Rightarrow> string \<Rightarrow> teacher_timetable_row list" where
  "classes_of db teacher day =
     filter (\<lambda>tt. LOWER (tt_teacher_id tt) = LOWER teacher
                  \<and> UPPER (tt_day_of_week tt) = UPPER day
                  \<and> \<not> tt_is_free tt)
            (teacher_timetable db)"

text \<open>
  A timetable in which Bob has two entries for Monday's slot 1, a free one and a busy
  one, while Alice, who is absent, teaches in that slot.
\<close>

definition double_db :: database where
  "double_db =
     \<lparr> teacher_attendance =
         [\<lparr>ta_teacher_id = ''T1'', ta_teacher_name = Some ''Alice'', ta_attendance = Some ''ABSENT''\<rparr>,
          \<lparr>ta_teacher_id = ''T2'', ta_teacher_name = Some ''Bob'', ta_attendance = Some ''PRESENT''\<rparr>],
       teacher_timetable =
         [\<lparr>tt_teacher_id = ''T1'', tt_day_of_week = ''MON'', tt_slot_id = 1,
            tt_activity_description = Some ''MATH101 - Algebra'', tt_room_location = Some ''R1'',
            tt_is_free = False\<rparr>,
          \<lparr>tt_teacher_id = ''T2'', tt_day_of_week = ''MON'', tt_slot_id = 1,
            tt_activity_description = None, tt_room_location = None, tt_is_free = True\<rparr>,
          \<lparr>tt_teacher_id = ''T2'', tt_day_of_week = ''MON'', tt_slot_id = 1,
            tt_activity_description = Some ''CHEM - Titration'', tt_room_location = Some ''L2'',
            tt_is_free = False\<rparr>],
       time_slots = [\<lparr>ts_slot_id = 1, ts_time_range = Some ''09:00-10:00''\<rparr>],
       teacher_subject_assignment = [],
       subjects = [] \<rparr>"

definition double_store :: store where
  "double_store = \<lparr> tables = double_db, rejects = (\<lambda>r. None) \<rparr>"

definition double_report :: report where
  "double_report =
     \<lparr> absentName = ''Alice'', absentTeacherSubjectDetail = ''Subject(s) Not Assigned'',
       schedule =
         [\<lparr> slot_id = 1, slot = Some ''09:00-10:00'', class_info = Some ''MATH101 - Algebra'',
            subject = ''MATH101'', room = Some ''R1'', is_lab = False,
            available_substitutes =
              [\<lparr> substitute_id = ''T2'', substitute_name = Some ''Bob'', priority = GOOD_FIT,
                 subjects_codes = [], subjects_detail = [] \<rparr>] \<rparr>],
       note_text = None \<rparr>"

text \<open>A candidate row for a class that is not among Alice's.\<close>

definition ex_stray_row :: sub_row where
  "ex_stray_row =
     \<lparr> r_absent_teacher_id = ''T1'', r_slot_id = 7, r_time_range = Some ''15:00-16:00'',
       r_class_to_cover = Some ''ART - Drawing'', r_room_location = None,
       r_substitute_teacher_id = ''T2'', r_substitute_teacher_name = Some ''Bob'',
       r_subjects_codes = ''CHEM, PHY'', r_subjects_detail = ''CHEM -  | PHY - Physics'',
       r_substitution_priority = GOOD_FIT \<rparr>"

text \<open>
  A timetable in which the absent teacher has two classes in slot 1, one without a
  description and one whose description is the four letters \<^verbatim>\<open>null\<close>.
\<close>

definition null_db :: database where
  "null_db =
     \<lparr> teacher_attendance =
         [\<lparr>ta_teacher_id = ''T1'', ta_teacher_name = Some ''Alice'', ta_attendance = Some ''ABSENT''\<rparr>],
       teacher_timetable =
         [\<lparr>tt_teacher_id = ''T1'', tt_day_of_week = ''MON'', tt_slot_id = 1,
            tt_activity_description = None, tt_room_location = Some ''R1'', tt_is_free = False\<rparr>,
          \<lparr>tt_teacher_id = ''T1'', tt_day_of_week = ''MON'', tt_slot_id = 1,
            tt_activity_description = Some ''null'', tt_room_location = Some ''R2'',
            tt_is_free = False\<rparr>],
       time_slots = [\<lparr>ts_slot_id = 1, ts_time_range = Some ''09:00-10:00''\<rparr>],
       teacher_subject_assignment = [],
       subjects = [] \<rparr>"

definition null_store :: store where
  "null_store = \<lparr> tables = null_db, rejects = (\<lambda>r. None) \<rparr>"

definition null_report :: report where
  "null_report =
     \<lparr> absentName = ''Alice'', absentTeacherSubjectDetail = ''Subject(s) Not Assigned'',
       schedule =
         [\<lparr> slot_id = 1, slot = Some ''09:00-10:00'', class_info = None, subject = ''N/A'',
            room = Some ''R1'', is_lab = False, available_substitutes = [] \<rparr>],
       note_text = None \<rparr>"

section \<open>Properties of the text primitives\<close>

lemma find_map_option: "find P (map f xs) = map_option f (find (\<lambda>x. P (f x)) xs)"
  by (induction xs) simp_all

lemma find_upt_Suc:
  "find P [0..<Suc n] = (if P 0 then Some 0 else map_option Suc (find (\<lambda>k. P (Suc k)) [0..<n]))"
proof -
  have "[0..<Suc n] = 0 # map Suc [0..<n]"
    by (simp add: upt_conv_Cons map_Suc_upt del: upt_Suc)
  then show ?thesis
    by (simp add: find_map_option del: upt_Suc)
qed

lemma first_occurrence_Cons:
  "first_occurrence sep (c # cs) =
     (if prefix sep (c # cs) then Some 0 else map_option Suc (first_occurrence sep cs))"
  unfolding first_occurrence_def
  by (simp add: find_upt_Suc del: upt_Suc)

text \<open>\<^verbatim>\<open>SUBSTRING_INDEX(d, sep, 1)\<close> cuts at the first occurrence of the separator.\<close>

lemma SUBSTRING_INDEX_1_first_occurrence:
  "SUBSTRING_INDEX_1 d sep = (case first_occurrence sep d of None \<Rightarrow> d | Some n \<Rightarrow> take n d)"
proof (induction d)
  case Nil
  show ?case by (simp add: first_occurrence_def)
next
  case (Cons c cs)
  then show ?case
    by (cases "first_occurrence sep cs") (simp_all add: first_occurrence_Cons)
qed

lemma SUBSTRING_INDEX_1_leading_segment: "SUBSTRING_INDEX_1 d '' - '' = leading_segment d"
  by (simp add: leading_segment_def SUBSTRING_INDEX_1_first_occurrence)

text \<open>The first piece of a split is the same cut, after what the accumulator holds.\<close>

lemma split_from_head:
  "sep \<noteq> [] \<Longrightarrow> \<exists>rest. split_from sep acc s = (rev acc @ SUBSTRING_INDEX_1 s sep) # rest"
proof (induction sep acc s rule: split_from.induct)
  case (1 sep acc)
  show ?case by simp
next
  case (2 sep acc c cs)
  show ?case
  proof (cases "prefix sep (c # cs)")
    case True
    with 2(3) show ?thesis by simp
  next
    case False
    with 2(2)[OF _ 2(3)] show ?thesis by auto
  qed
qed

lemma js_split_head: "\<exists>rest. js_split s '' - '' = leading_segment s # rest"
  using split_from_head[of "'' - ''" "[]" s]
  by (simp add: js_split_def SUBSTRING_INDEX_1_leading_segment)

lemma rev_dropWhile_takeWhile:
  "rev (dropWhile P (rev xs)) @ rev (takeWhile P (rev xs)) = xs"
proof -
  have "rev (takeWhile P (rev xs) @ dropWhile P (rev xs)) = rev (rev xs)"
    by (simp only: takeWhile_dropWhile_id)
  then show ?thesis by (simp only: rev_append rev_rev_ident)
qed

text \<open>A trimmed text does not start with white space.\<close>

lemma dropWhile_trim: "dropWhile is_space (trim s) = trim s"
proof (cases "trim s")
  case Nil
  then show ?thesis by simp
next
  case (Cons a as)
  let ?t = "dropWhile is_space s"
  have split: "trim s @ rev (takeWhile is_space (rev ?t)) = ?t"
    unfolding trim_def by (rule rev_dropWhile_takeWhile)
  with Cons have ne: "?t \<noteq> []" by (metis append_Cons list.distinct(1))
  then have "\<not> is_space (hd ?t)" by (rule hd_dropWhile)
  moreover from split Cons have "hd ?t = a"
    by (metis append_Cons list.sel(1))
  ultimately show ?thesis using Cons by simp
qed

lemma trim_Nil: "trim [] = []"
  by (simp add: trim_def)

lemma toUpperCase_Nil: "toUpperCase [] = []"
  by (simp add: toUpperCase_def)

lemma leading_segment_Nil: "leading_segment [] = []"
  by (simp add: leading_segment_def first_occurrence_def)

lemma upper_char_not_lower: "upper_char c \<notin> set lower_letters"
  by (simp add: upper_char_def lower_letters_def upper_letters_def)

lemma is_word_upper_char: "is_word_char (upper_char c) \<longleftrightarrow> is_upper_word_char (upper_char c)"
  using upper_char_not_lower[of c]
  by (auto simp: is_word_char_def is_upper_word_char_def)

lemma test_upper_word_toUpperCase:
  "test_upper_word (toUpperCase x) \<longleftrightarrow>
     toUpperCase x \<noteq> [] \<and> list_all is_word_char (toUpperCase x)"
  by (simp add: test_upper_word_def toUpperCase_def list_all_iff is_word_upper_char)

section \<open>normalizeDay\<close>

text \<open>
  C8, as amended. A missing day and the empty text pass through unchanged. For a text
  that is not empty, the spellings THU, THUR, THURS and THURSDAY, in any case and with
  white space around them, give THUR. Every other text gives the first three characters
  of the trimmed text in upper case: the white space around the text is removed before
  the three characters are taken.
\<close>

theorem normalizeDay_trimmed:
  "normalizeDay None = None
   \<and> normalizeDay (Some []) = Some []
   \<and> (d \<noteq> [] \<and> toUpperCase (trim d) \<in> set thursday_spellings
        \<longrightarrow> normalizeDay (Some d) = Some ''THUR'')
   \<and> (d \<noteq> [] \<and> toUpperCase (trim d) \<notin> set thursday_spellings
        \<longrightarrow> normalizeDay (Some d) = Some (take 3 (toUpperCase (trim d))))"
  by (simp add: normalizeDay_def Let_def)

lemma thursday_example: "toUpperCase (trim '' Thursday '') \<in> set thursday_spellings"
  by code_simp

lemma monday_example:
  "toUpperCase (trim '' monday'') \<notin> set thursday_spellings
   \<and> take 3 (toUpperCase (trim '' monday'')) = ''MON''"
  by code_simp

theorem normalizeDay_trimmed_witness:
  "toUpperCase (trim '' Thursday '') \<in> set thursday_spellings
   \<and> normalizeDay (Some '' Thursday '') = Some ''THUR''
   \<and> toUpperCase (trim '' monday'') \<notin> set thursday_spellings
   \<and> normalizeDay (Some '' monday'') = Some ''MON''"
  using normalizeDay_trimmed[of "'' Thursday ''"] normalizeDay_trimmed[of "'' monday''"]
    thursday_example monday_example
  by simp

text \<open>
  C8 as it is stated fails for a text with leading white space: for \<^verbatim>\<open>" monday"\<close>, which
  is not empty and is no spelling of Thursday, the result is not the first three
  characters of the text in upper case (a space, M, O) but MON.
\<close>

theorem normalizeDay_untrimmed_counterexample:
  "'' monday'' \<noteq> []
   \<and> toUpperCase (trim '' monday'') \<notin> set thursday_spellings
   \<and> normalizeDay (Some '' monday'') \<noteq> Some (toUpperCase (take 3 '' monday''))"
  by code_simp

section \<open>extractSubjectCode\<close>

text \<open>
  C9, as amended. The function applies the specification's rule to the trimmed
  description: the split and the leading run are taken after the white space around the
  description is removed. The three examples of the claim hold.
\<close>

theorem extractSubjectCode_trimmed:
  "extractSubjectCode a = extractSubjectCode_spec (map_option trim a)
   \<and> extractSubjectCode (Some ''MATH101 - Algebra'') = ''MATH101''
   \<and> extractSubjectCode (Some ''intro class'') = ''INTRO''
   \<and> extractSubjectCode (Some []) = ''N/A''
   \<and> extractSubjectCode None = ''N/A''"
proof -
  have rule: "extractSubjectCode a = extractSubjectCode_spec (map_option trim a)"
  proof (cases a)
    case None
    then show ?thesis by (simp add: extractSubjectCode_def extractSubjectCode_spec_def)
  next
    case (Some d)
    obtain rest where parts: "js_split (trim d) '' - '' = leading_segment (trim d) # rest"
      using js_split_head by blast
    show ?thesis
    proof (cases "trim d = []")
      case True
      with Some parts show ?thesis
        by (simp add: extractSubjectCode_def extractSubjectCode_spec_def match_leading_word_def
              leading_segment_Nil)
    next
      case False
      then have "d \<noteq> []" using trim_Nil by auto
      with Some parts False show ?thesis
        by (simp add: extractSubjectCode_def extractSubjectCode_spec_def match_leading_word_def
              dropWhile_trim test_upper_word_toUpperCase Let_def trim_Nil toUpperCase_Nil)
    qed
  qed
  have e1: "extractSubjectCode (Some ''MATH101 - Algebra'') = ''MATH101''" by code_simp
  have e2: "extractSubjectCode (Some ''intro class'') = ''INTRO''" by code_simp
  have e3: "extractSubjectCode (Some []) = ''N/A''" by (simp add: extractSubjectCode_def)
  have e4: "extractSubjectCode None = ''N/A''" by (simp add: extractSubjectCode_def)
  from rule e1 e2 e3 e4 show ?thesis by simp
qed

lemma spec_rule_example:
  "extractSubjectCode_spec (map_option trim (Some ''  intro class'')) = ''INTRO''"
  by code_simp

theorem extractSubjectCode_trimmed_witness:
  "extractSubjectCode (Some ''  intro class'') = ''INTRO''"
  using extractSubjectCode_trimmed[of "Some ''  intro class''"] spec_rule_example
  by (simp only:)

text \<open>
  C9 as it is stated fails for a description with leading white space: the text
  \<^verbatim>\<open>"  intro class"\<close> has no leading run of letters, digits and underscores, so the rule
  gives N/A, and the function returns INTRO.
\<close>

theorem extractSubjectCode_untrimmed_counterexample:
  "extractSubjectCode (Some ''  intro class'') = ''INTRO''
   \<and> extractSubjectCode_spec (Some ''  intro class'') = ''N/A''"
  by code_simp

section \<open>The grouping key\<close>

declare show_nat.simps [simp del]

lemma digit_chars_props: "length digit_chars = 10" "distinct digit_chars"
  by (simp_all add: digit_chars_def)

lemma digit_inj:
  "i < 10 \<Longrightarrow> j < 10 \<Longrightarrow> digit_chars ! i = digit_chars ! j \<Longrightarrow> i = j"
  using digit_chars_props by (simp add: nth_eq_iff_index_eq)

lemma show_nat_not_Nil: "show_nat n \<noteq> []"
  by (subst show_nat.simps) simp

lemma show_nat_digits: "set (show_nat n) \<subseteq> set digit_chars"
proof (induction n rule: show_nat.induct)
  case (1 n)
  show ?case
  proof (cases "n < 10")
    case True
    then have "digit_chars ! n \<in> set digit_chars"
      by (simp add: digit_chars_props)
    with True show ?thesis by (subst show_nat.simps) simp
  next
    case False
    have "digit_chars ! (n mod 10) \<in> set digit_chars"
      by (simp add: digit_chars_props)
    with False 1 show ?thesis by (subst show_nat.simps) simp
  qed
qed

lemma show_nat_inj: "show_nat m = show_nat n \<Longrightarrow> m = n"
proof (induction m arbitrary: n rule: show_nat.induct)
  case (1 m)
  show ?case
  proof (cases "m < 10")
    case m: True
    show ?thesis
    proof (cases "n < 10")
      case True
      with m "1.prems" have "digit_chars ! m = digit_chars ! n"
        by (simp add: show_nat.simps[of m] show_nat.simps[of n])
      with m True show ?thesis by (rule digit_inj)
    next
      case False
      with m "1.prems" show_nat_not_Nil[of "n div 10"] show ?thesis
        by (simp add: show_nat.simps[of m] show_nat.simps[of n])
    qed
  next
    case m: False
    show ?thesis
    proof (cases "n < 10")
      case True
      with m "1.prems" show_nat_not_Nil[of "m div 10"] show ?thesis
        by (simp add: show_nat.simps[of m] show_nat.simps[of n])
    next
      case False
      with m "1.prems" have eq: "show_nat (m div 10) = show_nat (n div 10)"
        and last: "digit_chars ! (m mod 10) = digit_chars ! (n mod 10)"
        by (simp_all add: show_nat.simps[of m] show_nat.simps[of n])
      from "1.IH"[OF m eq] have "m div 10 = n div 10" .
      moreover from last have "m mod 10 = n mod 10" by (intro digit_inj) simp_all
      ultimately show ?thesis by (metis div_mult_mod_eq)
    qed
  qed
qed

lemma show_int_inj: "show_int i = show_int j \<Longrightarrow> i = j"
proof -
  have minus: "CHR ''-'' \<notin> set (show_nat n)" for n
    using show_nat_digits[of n] by (auto simp: digit_chars_def)
  have hd_not_minus: "hd (show_nat n) \<noteq> CHR ''-''" for n
    using minus[of n] show_nat_not_Nil[of n] by (cases "show_nat n") auto
  assume eq: "show_int i = show_int j"
  show ?thesis
  proof (cases "i < 0")
    case i: True
    show ?thesis
    proof (cases "j < 0")
      case True
      with i eq have "show_nat (nat (- i)) = show_nat (nat (- j))" by (simp add: show_int_def)
      then have "nat (- i) = nat (- j)" by (rule show_nat_inj)
      with i True show ?thesis by simp
    next
      case False
      with i eq have "CHR ''-'' # show_nat (nat (- i)) = show_nat (nat j)" by (simp add: show_int_def)
      with hd_not_minus[of "nat j"] show ?thesis by (metis list.sel(1))
    qed
  next
    case i: False
    show ?thesis
    proof (cases "j < 0")
      case True
      with i eq have "show_nat (nat i) = CHR ''-'' # show_nat (nat (- j))" by (simp add: show_int_def)
      with hd_not_minus[of "nat i"] show ?thesis by (metis list.sel(1))
    next
      case False
      with i eq have "show_nat (nat i) = show_nat (nat j)" by (simp add: show_int_def)
      then have "nat i = nat j" by (rule show_nat_inj)
      with i False show ?thesis by simp
    qed
  qed
qed

lemma show_int_no_bar: "CHR ''|'' \<notin> set (show_int i)"
  using show_nat_digits[of "nat i"] show_nat_digits[of "nat (- i)"]
  by (auto simp: show_int_def digit_chars_def)

lemma append_bar_eq:
  assumes "a @ CHR ''|'' # x = b @ CHR ''|'' # y"
    and "CHR ''|'' \<notin> set a" and "CHR ''|'' \<notin> set b"
  shows "a = b \<and> x = y"
proof -
  have "takeWhile (\<lambda>c. c \<noteq> CHR ''|'') (a @ CHR ''|'' # x) = a"
    using assms(2) by (subst takeWhile_append2) auto
  moreover have "takeWhile (\<lambda>c. c \<noteq> CHR ''|'') (b @ CHR ''|'' # y) = b"
    using assms(3) by (subst takeWhile_append2) auto
  ultimately have "a = b" using assms(1) by simp
  with assms(1) show ?thesis by simp
qed

lemma key_of_eq:
  "key_of i x = key_of j y \<longleftrightarrow> i = j \<and> show_text x = show_text y"
proof
  assume "key_of i x = key_of j y"
  then have "show_int i @ CHR ''|'' # show_text x = show_int j @ CHR ''|'' # show_text y"
    by (simp add: key_of_def)
  then have "show_int i = show_int j \<and> show_text x = show_text y"
    by (rule append_bar_eq[OF _ show_int_no_bar show_int_no_bar])
  then show "i = j \<and> show_text x = show_text y" by (simp add: show_int_inj)
next
  assume "i = j \<and> show_text x = show_text y"
  then show "key_of i x = key_of j y" by (simp add: key_of_def)
qed

lemma show_text_eq:
  "show_text x = show_text y \<longleftrightarrow>
     x = y \<or> (x = None \<and> y = Some ''null'') \<or> (x = Some ''null'' \<and> y = None)"
  by (auto simp: show_text_def split: option.splits)

section \<open>What the two loops over the rows build\<close>

lemma update_absent: "k \<notin> fst ` set al \<Longrightarrow> AList.update k v al = al @ [(k, v)]"
  by (induction al) auto

lemma update_present:
  "distinct (map fst al) \<Longrightarrow> map_of al k = Some v \<Longrightarrow>
     AList.update k (f v) al = map (\<lambda>(k', x). (k', if k' = k then f x else x)) al"
proof (induction al)
  case Nil
  then show ?case by simp
next
  case (Cons p ps)
  obtain k' x where p: "p = (k', x)" by (cases p)
  show ?case
  proof (cases "k' = k")
    case True
    with Cons.prems p have "x = v" and "k \<notin> fst ` set ps" by auto
    then have "map (\<lambda>(k', x). (k', if k' = k then f x else x)) ps = ps"
      by (intro map_idI) (auto simp: image_iff)
    with True p \<open>x = v\<close> show ?thesis by simp
  next
    case False
    with Cons p show ?thesis by simp
  qed
qed

lemma first_of_key_cong:
  "set seen = set seen' \<Longrightarrow> first_of_key seen rows = first_of_key seen' rows"
proof (induction rows arbitrary: seen seen')
  case Nil
  show ?case by simp
next
  case (Cons row rows)
  from Cons.prems have "set (class_key row # seen) = set (class_key row # seen')" by simp
  then have "first_of_key (class_key row # seen) rows = first_of_key (class_key row # seen') rows"
    by (rule Cons.IH)
  moreover have "first_of_key seen rows = first_of_key seen' rows"
    using Cons.prems by (rule Cons.IH)
  ultimately show ?case using Cons.prems by simp
qed

lemma group_classes_eq:
  "group_classes classes byKey =
     byKey @ map (\<lambda>row. (class_key row, new_slot row)) (first_of_key (map fst byKey) classes)"
proof (induction classes arbitrary: byKey)
  case Nil
  show ?case by simp
next
  case (Cons row rows)
  show ?case
  proof (cases "map_of byKey (class_key row) = None")
    case True
    then have absent: "class_key row \<notin> fst ` set byKey"
      by (simp add: map_of_eq_None_iff)
    then have "AList.update (class_key row) (new_slot row) byKey =
        byKey @ [(class_key row, new_slot row)]"
      by (rule update_absent)
    moreover have "first_of_key (map fst byKey @ [class_key row]) rows
        = first_of_key (class_key row # map fst byKey) rows"
      by (rule first_of_key_cong) auto
    ultimately show ?thesis using True absent Cons.IH by (simp add: Let_def)
  next
    case False
    then obtain cs where found: "map_of byKey (class_key row) = Some cs" by auto
    then have "(class_key row, cs) \<in> set byKey" by (rule map_of_SomeD)
    then have "class_key row \<in> set (map fst byKey)" by force
    with found Cons.IH show ?thesis by (simp add: Let_def)
  qed
qed

lemma first_of_key_keys:
  "distinct (map class_key (first_of_key seen rows))
   \<and> class_key ` set (first_of_key seen rows) = class_key ` set rows - set seen"
proof (induction rows arbitrary: seen)
  case Nil
  show ?case by simp
next
  case (Cons row rows)
  from Cons.IH[of seen] Cons.IH[of "class_key row # seen"] show ?case by auto
qed

lemma first_of_key_subset: "set (first_of_key seen rows) \<subseteq> set rows"
  by (induction rows arbitrary: seen) auto

lemma first_of_key_distinct:
  "distinct (map class_key rows) \<Longrightarrow> first_of_key [] rows = rows"
proof -
  have "distinct (map class_key rows) \<Longrightarrow> set seen \<inter> class_key ` set rows = {} \<Longrightarrow>
      first_of_key seen rows = rows" for seen
    by (induction rows arbitrary: seen) auto
  then show "distinct (map class_key rows) \<Longrightarrow> first_of_key [] rows = rows" by simp
qed

lemma group_subs_eq:
  "distinct (map fst byKey) \<Longrightarrow>
     group_subs subs byKey =
       map (\<lambda>(k, cs). (k, cs\<lparr>available_substitutes :=
              available_substitutes cs @ map new_substitute (filter (\<lambda>s. sub_key s = k) subs)\<rparr>))
           byKey"
proof (induction subs arbitrary: byKey)
  case Nil
  show ?case by (simp add: case_prod_unfold)
next
  case (Cons s subs)
  let ?key = "sub_key s"
  show ?case
  proof (cases "map_of byKey ?key")
    case None
    then have "?key \<notin> fst ` set byKey" by (simp add: map_of_eq_None_iff)
    then have "\<forall>(k, cs) \<in> set byKey. k \<noteq> ?key" by force
    with None Cons.IH[OF Cons.prems] show ?thesis
      by (auto simp: Let_def)
  next
    case (Some cs)
    let ?push = "\<lambda>c. c\<lparr>available_substitutes := available_substitutes c @ [new_substitute s]\<rparr>"
    have upd: "AList.update ?key (?push cs) byKey =
        map (\<lambda>(k', x). (k', if k' = ?key then ?push x else x)) byKey"
      using Cons.prems Some by (rule update_present)
    have "distinct (map fst (AList.update ?key (?push cs) byKey))"
      using Cons.prems by (rule distinct_update)
    from Cons.IH[OF this] Some show ?thesis
      by (simp add: Let_def upd case_prod_unfold)
  qed
qed

lemma build_schedule_eq:
  "build_schedule classes subs =
     sort_key slot_id (map (filled_slot subs) (first_of_key [] classes))"
proof -
  let ?seeds = "map (\<lambda>row. (class_key row, new_slot row)) (first_of_key [] classes)"
  have seeds: "group_classes classes [] = ?seeds"
    by (simp add: group_classes_eq)
  have "distinct (map fst ?seeds)"
    using first_of_key_keys[of "[]" classes] by (simp add: comp_def)
  then have "map snd (group_subs subs ?seeds) = map (filled_slot subs) (first_of_key [] classes)"
    by (simp add: group_subs_eq comp_def filled_slot_def new_slot_def)
  then show ?thesis
    by (simp add: build_schedule_def seeds)
qed

section \<open>The rows of the queries\<close>

lemma left_join_subjects_agg_not_Nil: "left_join_subjects_agg db tid \<noteq> []"
  by (simp add: left_join_subjects_agg_def Let_def)

lemma timetable_row_exists_entry:
  "timetable_row_exists db x d n fr \<longleftrightarrow>
     (\<exists>tt \<in> set (teacher_timetable db). entry_for x d n tt \<and> tt_is_free tt = fr)"
  by (simp add: timetable_row_exists_def entry_for_def)

lemma entry_for_day: "UPPER d = UPPER d' \<Longrightarrow> entry_for x d n tt = entry_for x d' n tt"
  by (simp add: entry_for_def)

lemma classes_to_cover_iff:
  "c \<in> set (classes_to_cover db p1 p2) \<longleftrightarrow>
     (\<exists>tt \<in> set (teacher_timetable db). \<exists>ts \<in> set (time_slots db).
        ts_slot_id ts = tt_slot_id tt \<and> LOWER (tt_teacher_id tt) = LOWER p1
        \<and> UPPER (tt_day_of_week tt) = UPPER p2 \<and> \<not> tt_is_free tt \<and> c = select_c tt ts)"
  by (auto simp: classes_to_cover_def)

lemma classes_to_cover_fields:
  assumes "c \<in> set (classes_to_cover db p1 p2)"
  shows "LOWER (c_absent_teacher_id c) = LOWER p1" and "UPPER (c_day_of_week c) = UPPER p2"
  using assms by (auto simp: classes_to_cover_iff select_c_def)

lemma set_qClasses: "set (qClasses db p1 p2) = select_qClasses ` set (classes_to_cover db p1 p2)"
  by (simp add: qClasses_def)

lemma select_qClasses_fields:
  "c_slot_id (select_qClasses c) = c_slot_id c"
  "c_class_to_cover (select_qClasses c) = c_class_to_cover c"
  by (simp_all add: select_qClasses_def)

lemma qSubs_iff:
  "r \<in> set (qSubs db p1 p2) \<longleftrightarrow>
     (\<exists>c \<in> set (classes_to_cover db p1 p2). \<exists>s \<in> set (teacher_attendance db).
        \<exists>sa \<in> set (left_join_subjects_agg db (ta_teacher_id s)).
          status_is ''PRESENT'' s
          \<and> LOWER (ta_teacher_id s) \<noteq> LOWER (c_absent_teacher_id c)
          \<and> (timetable_row_exists db (ta_teacher_id s) (c_day_of_week c) (c_slot_id c) True
               \<or> \<not> timetable_row_exists db (ta_teacher_id s) (c_day_of_week c) (c_slot_id c) False)
          \<and> r = select_qSubs db c s sa)"
  by (auto simp: qSubs_def status_is_def)

lemma select_qSubs_fields:
  "r_slot_id (select_qSubs db c s sa) = c_slot_id c"
  "r_class_to_cover (select_qSubs db c s sa) = c_class_to_cover c"
  "r_substitute_teacher_id (select_qSubs db c s sa) = ta_teacher_id s"
  "r_substitute_teacher_name (select_qSubs db c s sa) = ta_teacher_name s"
  "r_substitution_priority (select_qSubs db c s sa) =
     (if same_subject_exists db (ta_teacher_id s) (c_class_to_cover c) then BEST_FIT else GOOD_FIT)"
  by (simp_all add: select_qSubs_def)


section \<open>The slots of a report\<close>

text \<open>The only way to a schedule that is not empty.\<close>

lemma findSubstitutes_schedule:
  assumes "findSubstitutes st a d = Inr rep" and "schedule rep \<noteq> []"
  shows "schedule rep =
           build_schedule
             (qClasses (tables st) (trim (or_empty a)) (or_empty (normalizeDay (Some (or_empty d)))))
             (qSubs (tables st) (trim (or_empty a)) (or_empty (normalizeDay (Some (or_empty d)))))"
  using assms
  by (auto simp: findSubstitutes_def resolve_found_def try_catch_def try_block_def query_def
        Let_def split: if_splits sum.splits list.splits option.splits)


lemma slot_in_schedule:
  assumes "findSubstitutes st a d = Inr rep" and "cs \<in> set (schedule rep)"
  obtains row where
    "row \<in> set (qClasses (tables st) (trim (or_empty a)) (or_empty (normalizeDay (Some (or_empty d)))))"
    "cs = filled_slot
            (qSubs (tables st) (trim (or_empty a)) (or_empty (normalizeDay (Some (or_empty d))))) row"
proof -
  let ?C = "qClasses (tables st) (trim (or_empty a)) (or_empty (normalizeDay (Some (or_empty d))))"
  let ?S = "qSubs (tables st) (trim (or_empty a)) (or_empty (normalizeDay (Some (or_empty d))))"
  from assms(2) have "schedule rep \<noteq> []" by auto
  with assms(1) have "schedule rep = build_schedule ?C ?S"
    by (rule findSubstitutes_schedule)
  then have "set (schedule rep) = filled_slot ?S ` set (first_of_key [] ?C)"
    by (simp only: build_schedule_eq set_sort set_map)
  with assms(2) obtain row where first: "row \<in> set (first_of_key [] ?C)"
    and filled: "cs = filled_slot ?S row"
    by blast
  have "set (first_of_key [] ?C) \<subseteq> set ?C"
    by (rule first_of_key_subset)
  with first have "row \<in> set ?C" by (rule rev_subsetD)
  then show ?thesis using filled by (rule that)
qed

lemma filled_slot_fields:
  "slot_id (filled_slot subs row) = c_slot_id row"
  "class_info (filled_slot subs row) = c_class_to_cover row"
  "available_substitutes (filled_slot subs row) =
     map new_substitute (filter (\<lambda>s. sub_key s = class_key row) subs)"
  by (simp_all add: filled_slot_def new_slot_def)

lemma new_substitute_fields:
  "substitute_id (new_substitute s) = r_substitute_teacher_id s"
  "substitute_name (new_substitute s) = r_substitute_teacher_name s"
  "priority (new_substitute s) = r_substitution_priority s"
  by (simp_all add: new_substitute_def)

lemma candidate_ids:
  "x \<in> substitute_id ` set (available_substitutes (filled_slot subs row)) \<longleftrightarrow>
     (\<exists>s \<in> set subs. sub_key s = class_key row \<and> r_substitute_teacher_id s = x)"
  by (auto simp: filled_slot_fields new_substitute_fields image_iff)

lemma eligible_rows:
  assumes row: "row \<in> set (qClasses db tid day)"
  shows "(\<exists>r \<in> set (qSubs db tid day). sub_key r = class_key row \<and> r_substitute_teacher_id r = x)
     \<longleftrightarrow>
     (\<exists>t \<in> set (teacher_attendance db).
        ta_teacher_id t = x \<and> status_is ''PRESENT'' t \<and> LOWER x \<noteq> LOWER tid
        \<and> ((\<exists>tt \<in> set (teacher_timetable db). entry_for x day (c_slot_id row) tt \<and> tt_is_free tt)
            \<or> \<not> (\<exists>tt \<in> set (teacher_timetable db). entry_for x day (c_slot_id row) tt)))"
    (is "?L \<longleftrightarrow> ?R")
proof
  assume ?L
  then obtain r where r: "r \<in> set (qSubs db tid day)" and key: "sub_key r = class_key row"
    and x: "r_substitute_teacher_id r = x" by blast
  from r obtain c s sa where c: "c \<in> set (classes_to_cover db tid day)"
    and s: "s \<in> set (teacher_attendance db)" and present: "status_is ''PRESENT'' s"
    and other: "LOWER (ta_teacher_id s) \<noteq> LOWER (c_absent_teacher_id c)"
    and avail: "timetable_row_exists db (ta_teacher_id s) (c_day_of_week c) (c_slot_id c) True
               \<or> \<not> timetable_row_exists db (ta_teacher_id s) (c_day_of_week c) (c_slot_id c) False"
    and sel: "r = select_qSubs db c s sa"
    unfolding qSubs_iff by blast
  from sel x have sx: "ta_teacher_id s = x" by (simp add: select_qSubs_fields)
  from sel key have slot: "c_slot_id c = c_slot_id row"
    by (simp add: select_qSubs_fields key_of_eq)
  from c have cid: "LOWER (c_absent_teacher_id c) = LOWER tid"
    and cday: "UPPER (c_day_of_week c) = UPPER day"
    by (rule classes_to_cover_fields)+
  have ent: "entry_for x (c_day_of_week c) n tt = entry_for x day n tt" for n tt
    using cday by (rule entry_for_day)
  from avail have "(\<exists>tt \<in> set (teacher_timetable db). entry_for x day (c_slot_id row) tt \<and> tt_is_free tt)
            \<or> \<not> (\<exists>tt \<in> set (teacher_timetable db). entry_for x day (c_slot_id row) tt)"
    unfolding timetable_row_exists_entry sx slot ent by blast
  with s sx present other cid show ?R by auto
next
  assume ?R
  then obtain t where t: "t \<in> set (teacher_attendance db)" and tx: "ta_teacher_id t = x"
    and present: "status_is ''PRESENT'' t" and other: "LOWER x \<noteq> LOWER tid"
    and avail: "(\<exists>tt \<in> set (teacher_timetable db). entry_for x day (c_slot_id row) tt \<and> tt_is_free tt)
            \<or> \<not> (\<exists>tt \<in> set (teacher_timetable db). entry_for x day (c_slot_id row) tt)"
    by blast
  from row obtain c where c: "c \<in> set (classes_to_cover db tid day)"
    and rc: "row = select_qClasses c"
    unfolding set_qClasses by blast
  from c have cid: "LOWER (c_absent_teacher_id c) = LOWER tid"
    and cday: "UPPER (c_day_of_week c) = UPPER day"
    by (rule classes_to_cover_fields)+
  have ent: "entry_for x (c_day_of_week c) n tt = entry_for x day n tt" for n tt
    using cday by (rule entry_for_day)
  from rc have slot: "c_slot_id row = c_slot_id c" and cls: "c_class_to_cover row = c_class_to_cover c"
    by (simp_all add: select_qClasses_fields)
  obtain sa where sa: "sa \<in> set (left_join_subjects_agg db (ta_teacher_id t))"
    using left_join_subjects_agg_not_Nil[of db "ta_teacher_id t"]
    by (cases "left_join_subjects_agg db (ta_teacher_id t)") auto
  from avail have "timetable_row_exists db x (c_day_of_week c) (c_slot_id c) True
               \<or> \<not> timetable_row_exists db x (c_day_of_week c) (c_slot_id c) False"
    unfolding timetable_row_exists_entry ent slot by blast
  with present other cid tx have "select_qSubs db c t sa \<in> set (qSubs db tid day)"
    unfolding qSubs_iff by (intro bexI[OF _ c] bexI[OF _ t] bexI[OF _ sa]) simp
  moreover have "sub_key (select_qSubs db c t sa) = class_key row"
    by (simp add: select_qSubs_fields slot cls)
  moreover have "r_substitute_teacher_id (select_qSubs db c t sa) = x"
    by (simp add: select_qSubs_fields tx)
  ultimately show ?L by blast
qed

lemma one_entry_per_slotD:
  assumes "one_entry_per_slot db"
    and "tt \<in> set (teacher_timetable db)" and "tt' \<in> set (teacher_timetable db)"
    and "entry_for x day n tt" and "entry_for x day n tt'"
  shows "tt = tt'"
proof -
  let ?k = "\<lambda>tt. (LOWER (tt_teacher_id tt), UPPER (tt_day_of_week tt), tt_slot_id tt)"
  from assms(1) have "inj_on ?k (set (teacher_timetable db))"
    by (simp add: one_entry_per_slot_def distinct_map)
  moreover from assms(4,5) have "?k tt = ?k tt'" by (simp add: entry_for_def)
  ultimately show ?thesis using assms(2,3) by (rule inj_onD)
qed


section \<open>The example school, evaluated\<close>

text \<open>Alice's Monday, asked for with blanks around a lower-case identifier.\<close>

lemma ex_resolution:
  "findSubstitutes ex_store (Some '' t1 '') (Some ''Monday'') = Inr ex_report"
  by code_simp

lemma ex_slots: "ex_slot1 \<in> set (schedule ex_report)" "ex_slot2 \<in> set (schedule ex_report)"
  by (simp_all add: ex_report_def)

lemma ex_valid_request:
  "trim (or_empty (Some ''T9'')) \<noteq> [] \<and> \<not> falsy (normalizeDay (Some (or_empty (Some ''Monday''))))
   \<and> trim (or_empty (Some ''t2'')) \<noteq> []
   \<and> trim (or_empty (Some '' t1 '')) \<noteq> [] \<and> \<not> falsy (normalizeDay (Some (or_empty (Some ''tuesday''))))"
  by code_simp

lemma ex_reads: "rejects ex_store r = None"
  by (simp add: ex_store_def)

section \<open>Who is listed as a substitute\<close>

text \<open>
  C1, as amended. In a report of findSubstitutes, the substitutes of a coverage slot are
  the teachers of the attendance table whose status, trimmed and in upper case, is
  PRESENT, whose identifier differs from the absent teacher's without regard to case,
  and who for the day and the slot either have a timetable entry that is free or have
  no timetable entry at all. A schedule holds a slot only for a known teacher who is
  absent, so the two hypotheses cover the claim's resolutions. The absent teacher is
  never listed. A teacher with a busy entry for the slot is not listed unless the
  teacher also has a free entry for it; so such a teacher is never listed where a
  teacher has at most one timetable entry per day and slot.
\<close>

theorem candidates_of_slot:
  fixes st a d
  defines "db \<equiv> tables st"
    and "tid \<equiv> trim (or_empty a)"
    and "day \<equiv> or_empty (normalizeDay (Some (or_empty d)))"
  assumes "findSubstitutes st a d = Inr rep" and "cs \<in> set (schedule rep)"
  shows
    "(x \<in> substitute_id ` set (available_substitutes cs) \<longleftrightarrow>
       (\<exists>t \<in> set (teacher_attendance db).
          ta_teacher_id t = x \<and> status_is ''PRESENT'' t \<and> LOWER x \<noteq> LOWER tid
          \<and> ((\<exists>tt \<in> set (teacher_timetable db). entry_for x day (slot_id cs) tt \<and> tt_is_free tt)
              \<or> \<not> (\<exists>tt \<in> set (teacher_timetable db). entry_for x day (slot_id cs) tt))))
     \<and> (LOWER x = LOWER tid \<longrightarrow> x \<notin> substitute_id ` set (available_substitutes cs))
     \<and> ((\<exists>tt \<in> set (teacher_timetable db). entry_for x day (slot_id cs) tt \<and> \<not> tt_is_free tt)
          \<and> \<not> (\<exists>tt \<in> set (teacher_timetable db). entry_for x day (slot_id cs) tt \<and> tt_is_free tt)
          \<longrightarrow> x \<notin> substitute_id ` set (available_substitutes cs))
     \<and> (one_entry_per_slot db
          \<and> (\<exists>tt \<in> set (teacher_timetable db). entry_for x day (slot_id cs) tt \<and> \<not> tt_is_free tt)
          \<longrightarrow> x \<notin> substitute_id ` set (available_substitutes cs))"
proof -
  from assms(4,5) obtain row where row: "row \<in> set (qClasses db tid day)"
    and cs: "cs = filled_slot (qSubs db tid day) row"
    unfolding db_def tid_def day_def by (rule slot_in_schedule)
  have iff: "x \<in> substitute_id ` set (available_substitutes cs) \<longleftrightarrow>
       (\<exists>t \<in> set (teacher_attendance db).
          ta_teacher_id t = x \<and> status_is ''PRESENT'' t \<and> LOWER x \<noteq> LOWER tid
          \<and> ((\<exists>tt \<in> set (teacher_timetable db). entry_for x day (slot_id cs) tt \<and> tt_is_free tt)
              \<or> \<not> (\<exists>tt \<in> set (teacher_timetable db). entry_for x day (slot_id cs) tt)))"
    unfolding cs candidate_ids filled_slot_fields(1) using row by (rule eligible_rows)
  have busy: "x \<notin> substitute_id ` set (available_substitutes cs)"
    if one: "one_entry_per_slot db"
      and "\<exists>tt \<in> set (teacher_timetable db). entry_for x day (slot_id cs) tt \<and> \<not> tt_is_free tt"
  proof -
    from that(2) obtain tt where tt: "tt \<in> set (teacher_timetable db)"
      "entry_for x day (slot_id cs) tt" "\<not> tt_is_free tt" by blast
    have "\<not> (\<exists>tt' \<in> set (teacher_timetable db). entry_for x day (slot_id cs) tt' \<and> tt_is_free tt')"
      using one_entry_per_slotD[OF one _ tt(1) _ tt(2)] tt(3) by blast
    with tt iff show ?thesis by blast
  qed
  have self: "LOWER x = LOWER tid \<longrightarrow> x \<notin> substitute_id ` set (available_substitutes cs)"
    using iff by blast
  have only_busy:
    "(\<exists>tt \<in> set (teacher_timetable db). entry_for x day (slot_id cs) tt \<and> \<not> tt_is_free tt)
      \<and> \<not> (\<exists>tt \<in> set (teacher_timetable db). entry_for x day (slot_id cs) tt \<and> tt_is_free tt)
      \<longrightarrow> x \<notin> substitute_id ` set (available_substitutes cs)"
    using iff by blast
  have one_entry: "one_entry_per_slot db
      \<and> (\<exists>tt \<in> set (teacher_timetable db). entry_for x day (slot_id cs) tt \<and> \<not> tt_is_free tt)
      \<longrightarrow> x \<notin> substitute_id ` set (available_substitutes cs)"
    using busy by blast
  show ?thesis
    by (rule conjI[OF iff conjI[OF self conjI[OF only_busy one_entry]]])
qed

text \<open>
  In slot 1 of the example Dan, who has no timetable, is listed; Carol, whose only entry
  for the slot is busy, and Alice herself are not. In slot 2 Bob, who is busy there, is
  not listed.
\<close>

lemma ex_dan_eligible:
  "\<exists>t \<in> set (teacher_attendance (tables ex_store)).
     ta_teacher_id t = ''T4'' \<and> status_is ''PRESENT'' t
     \<and> LOWER ''T4'' \<noteq> LOWER (trim (or_empty (Some '' t1 '')))
     \<and> ((\<exists>tt \<in> set (teacher_timetable (tables ex_store)).
            entry_for ''T4'' (or_empty (normalizeDay (Some (or_empty (Some ''Monday'')))))
              (slot_id ex_slot1) tt \<and> tt_is_free tt)
         \<or> \<not> (\<exists>tt \<in> set (teacher_timetable (tables ex_store)).
            entry_for ''T4'' (or_empty (normalizeDay (Some (or_empty (Some ''Monday'')))))
              (slot_id ex_slot1) tt))"
  by code_simp

lemma ex_carol_only_busy:
  "(\<exists>tt \<in> set (teacher_timetable (tables ex_store)).
      entry_for ''T3'' (or_empty (normalizeDay (Some (or_empty (Some ''Monday'')))))
        (slot_id ex_slot1) tt \<and> \<not> tt_is_free tt)
   \<and> \<not> (\<exists>tt \<in> set (teacher_timetable (tables ex_store)).
      entry_for ''T3'' (or_empty (normalizeDay (Some (or_empty (Some ''Monday'')))))
        (slot_id ex_slot1) tt \<and> tt_is_free tt)"
  by code_simp

lemma ex_bob_busy:
  "one_entry_per_slot (tables ex_store)
   \<and> (\<exists>tt \<in> set (teacher_timetable (tables ex_store)).
        entry_for ''T2'' (or_empty (normalizeDay (Some (or_empty (Some ''Monday'')))))
          (slot_id ex_slot2) tt \<and> \<not> tt_is_free tt)"
  by code_simp

lemma ex_alice_self: "LOWER ''T1'' = LOWER (trim (or_empty (Some '' t1 '')))"
  by code_simp

theorem candidates_of_slot_witness:
  "findSubstitutes ex_store (Some '' t1 '') (Some ''Monday'') = Inr ex_report
   \<and> ex_slot1 \<in> set (schedule ex_report)
   \<and> ex_slot2 \<in> set (schedule ex_report)
   \<and> ''T4'' \<in> substitute_id ` set (available_substitutes ex_slot1)
   \<and> ''T3'' \<notin> substitute_id ` set (available_substitutes ex_slot1)
   \<and> ''T1'' \<notin> substitute_id ` set (available_substitutes ex_slot1)
   \<and> one_entry_per_slot (tables ex_store)
   \<and> ''T2'' \<notin> substitute_id ` set (available_substitutes ex_slot2)"
proof -
  note at_slot1 = candidates_of_slot[OF ex_resolution ex_slots(1)]
  note at_slot2 = candidates_of_slot[OF ex_resolution ex_slots(2)]
  have dan: "''T4'' \<in> substitute_id ` set (available_substitutes ex_slot1)"
    by (rule at_slot1[of "''T4''", THEN conjunct1, THEN iffD2, OF ex_dan_eligible])
  have carol: "''T3'' \<notin> substitute_id ` set (available_substitutes ex_slot1)"
    by (rule at_slot1[of "''T3''", THEN conjunct2, THEN conjunct2, THEN conjunct1, THEN mp,
          OF ex_carol_only_busy])
  have alice: "''T1'' \<notin> substitute_id ` set (available_substitutes ex_slot1)"
    by (rule at_slot1[of "''T1''", THEN conjunct2, THEN conjunct1, THEN mp, OF ex_alice_self])
  have bob: "''T2'' \<notin> substitute_id ` set (available_substitutes ex_slot2)"
    by (rule at_slot2[of "''T2''", THEN conjunct2, THEN conjunct2, THEN conjunct2, THEN mp,
          OF ex_bob_busy])
  from ex_bob_busy have one: "one_entry_per_slot (tables ex_store)" by (rule conjunct1)
  from ex_resolution ex_slots dan carol alice one bob show ?thesis by (intro conjI)
qed

text \<open>
  C1 as it is stated fails where a teacher has two entries for one slot: Bob has a busy
  entry for Monday's slot 1 and a free one, and the query, which asks for a free row or
  for no busy row, lists him for Alice's class in that slot.
\<close>

theorem busy_and_free_counterexample:
  "findSubstitutes double_store (Some ''T1'') (Some ''MON'') = Inr double_report
   \<and> (\<exists>tt \<in> set (teacher_timetable (tables double_store)).
        entry_for ''T2'' ''MON'' 1 tt \<and> \<not> tt_is_free tt)
   \<and> map (\<lambda>cs. (slot_id cs, map substitute_id (available_substitutes cs))) (schedule double_report)
       = [(1, [''T2''])]"
  by code_simp

section \<open>The order of the substitutes\<close>

lemma tiers_differ: "GOOD_FIT \<noteq> BEST_FIT"
  by (simp add: GOOD_FIT_def BEST_FIT_def)

lemma qSubs_sorted: "sorted (map qSubs_order (qSubs db p1 p2))"
  unfolding qSubs_def by (rule sorted_sort_key)

lemma qSubs_priority:
  "r \<in> set (qSubs db p1 p2) \<Longrightarrow>
     r_substitution_priority r = BEST_FIT \<or> r_substitution_priority r = GOOD_FIT"
  unfolding qSubs_iff by (auto simp: select_qSubs_fields)

lemma qSubs_order_same_slot:
  assumes "r_slot_id r = r_slot_id r'" and "qSubs_order r \<le> qSubs_order r'"
  shows "\<not> (r_substitution_priority r \<noteq> BEST_FIT \<and> r_substitution_priority r' = BEST_FIT)
     \<and> ((r_substitution_priority r = BEST_FIT \<longleftrightarrow> r_substitution_priority r' = BEST_FIT)
          \<longrightarrow> r_substitute_teacher_name r \<le> r_substitute_teacher_name r')"
  using assms by (auto simp: qSubs_order_def less_eq_prod_simp split: if_splits)

text \<open>
  C2. In the list of substitutes of a coverage slot of a report, no substitute tagged
  GOOD FIT stands before one tagged BEST FIT, and of two substitutes with the same tag
  the earlier has the smaller or the same display name (a missing name is the smallest).
  Every substitute carries one of the two tags.
\<close>

theorem candidates_in_order:
  assumes res: "findSubstitutes st a d = Inr rep" and cs: "cs \<in> set (schedule rep)"
    and ij: "i < j" and j: "j < length (available_substitutes cs)"
  shows
    "\<not> (priority (available_substitutes cs ! i) = GOOD_FIT
          \<and> priority (available_substitutes cs ! j) = BEST_FIT)
     \<and> (priority (available_substitutes cs ! i) = priority (available_substitutes cs ! j)
          \<longrightarrow> substitute_name (available_substitutes cs ! i)
                \<le> substitute_name (available_substitutes cs ! j))
     \<and> (priority (available_substitutes cs ! i) = BEST_FIT
          \<or> priority (available_substitutes cs ! i) = GOOD_FIT)
     \<and> (priority (available_substitutes cs ! j) = BEST_FIT
          \<or> priority (available_substitutes cs ! j) = GOOD_FIT)"
proof -
  let ?C = "qClasses (tables st) (trim (or_empty a)) (or_empty (normalizeDay (Some (or_empty d))))"
  let ?S = "qSubs (tables st) (trim (or_empty a)) (or_empty (normalizeDay (Some (or_empty d))))"
  from res cs obtain row where "row \<in> set ?C" and filled: "cs = filled_slot ?S row"
    by (rule slot_in_schedule)
  define F where "F = filter (\<lambda>s. sub_key s = class_key row) ?S"
  have cands: "available_substitutes cs = map new_substitute F"
    by (simp add: filled filled_slot_fields F_def)
  from j ij have jF: "j < length F" and iF: "i < length F" by (simp_all add: cands)
  have "sorted (map qSubs_order F)"
    unfolding F_def using qSubs_sorted by (rule sorted_filter)
  then have "map qSubs_order F ! i \<le> map qSubs_order F ! j"
    using ij jF by (intro sorted_nth_mono) simp_all
  then have le: "qSubs_order (F ! i) \<le> qSubs_order (F ! j)"
    using iF jF by simp
  have mem: "F ! k \<in> set ?S \<and> r_slot_id (F ! k) = c_slot_id row" if "k < length F" for k
  proof -
    from that have "F ! k \<in> set F" by simp
    then show ?thesis by (simp add: F_def key_of_eq)
  qed
  from mem[OF iF] mem[OF jF] have same: "r_slot_id (F ! i) = r_slot_id (F ! j)" by simp
  have pi: "r_substitution_priority (F ! i) = BEST_FIT \<or> r_substitution_priority (F ! i) = GOOD_FIT"
    by (rule qSubs_priority[OF conjunct1[OF mem[OF iF]]])
  have pj: "r_substitution_priority (F ! j) = BEST_FIT \<or> r_substitution_priority (F ! j) = GOOD_FIT"
    by (rule qSubs_priority[OF conjunct1[OF mem[OF jF]]])
  have ci: "available_substitutes cs ! i = new_substitute (F ! i)"
    and cj: "available_substitutes cs ! j = new_substitute (F ! j)"
    using iF jF by (simp_all add: cands)
  from qSubs_order_same_slot[OF same le] pi pj tiers_differ show ?thesis
    unfolding ci cj new_substitute_fields by metis
qed

text \<open>In slot 2 of the example both substitutes are tagged GOOD FIT, and Carol stands before Dan.\<close>

lemma ex_slot2_pair:
  "(0::nat) < 1 \<and> 1 < length (available_substitutes ex_slot2)
   \<and> priority (available_substitutes ex_slot2 ! 0) = priority (available_substitutes ex_slot2 ! 1)"
  by (simp add: ex_slot2_def ex_carol_def ex_dan_def)

theorem candidates_in_order_witness:
  "findSubstitutes ex_store (Some '' t1 '') (Some ''Monday'') = Inr ex_report
   \<and> ex_slot2 \<in> set (schedule ex_report)
   \<and> (0::nat) < 1 \<and> 1 < length (available_substitutes ex_slot2)
   \<and> priority (available_substitutes ex_slot2 ! 0) = priority (available_substitutes ex_slot2 ! 1)
   \<and> substitute_name (available_substitutes ex_slot2 ! 0)
       \<le> substitute_name (available_substitutes ex_slot2 ! 1)"
proof -
  from ex_slot2_pair have lt: "(0::nat) < 1" and len: "1 < length (available_substitutes ex_slot2)"
    and same: "priority (available_substitutes ex_slot2 ! 0)
                 = priority (available_substitutes ex_slot2 ! 1)"
    by simp_all
  have "substitute_name (available_substitutes ex_slot2 ! 0)
       \<le> substitute_name (available_substitutes ex_slot2 ! 1)"
    by (rule candidates_in_order[OF ex_resolution ex_slots(2) lt len,
          THEN conjunct2, THEN conjunct1, THEN mp, OF same])
  with ex_resolution ex_slots(2) ex_slot2_pair show ?thesis by simp
qed

section \<open>The fitness tier\<close>

lemma same_subject_exists_leading:
  "same_subject_exists db x cls \<longleftrightarrow>
     (\<exists>tsa \<in> set (teacher_subject_assignment db).
        LOWER (tsa_teacher_id tsa) = LOWER x
        \<and> map_option (\<lambda>d. UPPER (leading_segment d)) cls = Some (UPPER (TRIM (tsa_subject_code tsa))))"
  by (cases cls) (auto simp: same_subject_exists_def SUBSTRING_INDEX_1_leading_segment)

text \<open>
  C3. Every row of the candidate query is tagged BEST FIT exactly when the candidate
  has a subject assignment whose code, trimmed and in upper case, is the leading
  segment of the row's class description in upper case; every other row is tagged GOOD
  FIT. A row without a class description has no leading segment and is tagged GOOD FIT.
\<close>

theorem fitness_tier:
  assumes "r \<in> set (qSubs db p1 p2)"
  shows
    "(r_substitution_priority r = BEST_FIT \<longleftrightarrow>
        (\<exists>tsa \<in> set (teacher_subject_assignment db).
           LOWER (tsa_teacher_id tsa) = LOWER (r_substitute_teacher_id r)
           \<and> map_option (\<lambda>d. UPPER (leading_segment d)) (r_class_to_cover r)
               = Some (UPPER (TRIM (tsa_subject_code tsa)))))
     \<and> (r_substitution_priority r \<noteq> BEST_FIT \<longrightarrow> r_substitution_priority r = GOOD_FIT)"
proof -
  from assms obtain c s sa where sel: "r = select_qSubs db c s sa"
    unfolding qSubs_iff by blast
  have tier: "r_substitution_priority r =
      (if same_subject_exists db (r_substitute_teacher_id r) (r_class_to_cover r)
       then BEST_FIT else GOOD_FIT)"
    by (simp add: sel select_qSubs_fields)
  have best: "r_substitution_priority r = BEST_FIT \<longleftrightarrow>
      same_subject_exists db (r_substitute_teacher_id r) (r_class_to_cover r)"
    using tiers_differ by (simp add: tier)
  have good: "r_substitution_priority r \<noteq> BEST_FIT \<longrightarrow> r_substitution_priority r = GOOD_FIT"
    by (simp add: tier)
  from best good show ?thesis
    unfolding same_subject_exists_leading by (rule conjI)
qed

text \<open>The first candidate row of the example is Dan's for the algebra class, tagged BEST FIT.\<close>

lemma ex_first_row:
  "qSubs ex_db ''T1'' ''MON'' ! 0 \<in> set (qSubs ex_db ''T1'' ''MON'')
   \<and> r_substitute_teacher_id (qSubs ex_db ''T1'' ''MON'' ! 0) = ''T4''
   \<and> r_class_to_cover (qSubs ex_db ''T1'' ''MON'' ! 0) = Some ''MATH101 - Algebra''"
  by code_simp

lemma ex_dan_assignment:
  "\<exists>tsa \<in> set (teacher_subject_assignment ex_db).
     LOWER (tsa_teacher_id tsa) = LOWER ''T4''
     \<and> map_option (\<lambda>d. UPPER (leading_segment d)) (Some ''MATH101 - Algebra'')
         = Some (UPPER (TRIM (tsa_subject_code tsa)))"
  by code_simp

theorem fitness_tier_witness:
  "qSubs ex_db ''T1'' ''MON'' ! 0 \<in> set (qSubs ex_db ''T1'' ''MON'')
   \<and> r_substitute_teacher_id (qSubs ex_db ''T1'' ''MON'' ! 0) = ''T4''
   \<and> r_class_to_cover (qSubs ex_db ''T1'' ''MON'' ! 0) = Some ''MATH101 - Algebra''
   \<and> r_substitution_priority (qSubs ex_db ''T1'' ''MON'' ! 0) = BEST_FIT"
proof -
  from ex_first_row have mem: "qSubs ex_db ''T1'' ''MON'' ! 0 \<in> set (qSubs ex_db ''T1'' ''MON'')"
    and who: "r_substitute_teacher_id (qSubs ex_db ''T1'' ''MON'' ! 0) = ''T4''"
    and what: "r_class_to_cover (qSubs ex_db ''T1'' ''MON'' ! 0) = Some ''MATH101 - Algebra''"
    by simp_all
  have "r_substitution_priority (qSubs ex_db ''T1'' ''MON'' ! 0) = BEST_FIT"
    using fitness_tier[OF mem] ex_dan_assignment unfolding who what by simp
  with ex_first_row show ?thesis by simp
qed

text \<open>
  The same for a substitute as a report lists it, with the description of the slot it
  is listed under, when that description is present and is not the text \<^verbatim>\<open>null\<close>.
\<close>

lemma tier_in_report:
  assumes res: "findSubstitutes st a d = Inr rep" and cs: "cs \<in> set (schedule rep)"
    and cand: "cand \<in> set (available_substitutes cs)"
    and info: "class_info cs = Some descr" and descr: "descr \<noteq> ''null''"
  shows "priority cand = BEST_FIT \<longleftrightarrow>
           (\<exists>tsa \<in> set (teacher_subject_assignment (tables st)).
              LOWER (tsa_teacher_id tsa) = LOWER (substitute_id cand)
              \<and> UPPER (leading_segment descr) = UPPER (TRIM (tsa_subject_code tsa)))"
proof -
  let ?C = "qClasses (tables st) (trim (or_empty a)) (or_empty (normalizeDay (Some (or_empty d))))"
  let ?S = "qSubs (tables st) (trim (or_empty a)) (or_empty (normalizeDay (Some (or_empty d))))"
  from res cs obtain row where "row \<in> set ?C" and filled: "cs = filled_slot ?S row"
    by (rule slot_in_schedule)
  from info have row_txt: "c_class_to_cover row = Some descr"
    by (simp add: filled filled_slot_fields)
  from cand obtain r where r: "r \<in> set ?S" and key: "sub_key r = class_key row"
    and c: "cand = new_substitute r"
    by (auto simp: filled filled_slot_fields)
  from key row_txt descr have r_txt: "r_class_to_cover r = Some descr"
    by (auto simp: key_of_eq show_text_eq)
  from r obtain c0 s sa where sel: "r = select_qSubs (tables st) c0 s sa"
    unfolding qSubs_iff by blast
  have "priority cand = BEST_FIT \<longleftrightarrow>
      same_subject_exists (tables st) (substitute_id cand) (Some descr)"
    using r_txt tiers_differ by (simp add: c new_substitute_fields sel select_qSubs_fields)
  then show ?thesis
    by (simp add: same_subject_exists_leading)
qed

section \<open>Where the slots of a schedule come from\<close>

lemma map_insort_key:
  "map g (insort_key (\<lambda>x. k (g x)) x ys) = insort_key k (g x) (map g ys)"
  by (induction ys) simp_all

lemma map_sort_key:
  "map g (sort_key (\<lambda>x. k (g x)) xs) = sort_key k (map g xs)"
  by (induction xs) (simp_all add: map_insort_key)

lemma filled_slot_cleared:
  "(filled_slot subs row)\<lparr>available_substitutes := []\<rparr> = filled_slot [] row"
  by (simp add: filled_slot_def)

lemma filled_slot_matching:
  "filled_slot (filter (\<lambda>s. sub_key s \<in> class_key ` set classes) subs) row =
     (if class_key row \<in> class_key ` set classes then filled_slot subs row else filled_slot [] row)"
proof -
  have "filter (\<lambda>s. sub_key s = k) (filter (\<lambda>s. sub_key s \<in> K) subs) =
      (if k \<in> K then filter (\<lambda>s. sub_key s = k) subs else [])" for k K
    by (induction subs) auto
  then show ?thesis by (simp add: filled_slot_def)
qed

text \<open>
  C10. Every slot of the schedule is the slot of one of the class rows, filled with
  the substitutes of exactly the candidate rows that have that row's key. Candidate
  rows whose key is the key of no class row leave no trace: the schedule is the one
  built without them. Whatever the candidate rows are, they add no slot and change no
  slot's data other than its list of substitutes. And in a report of findSubstitutes,
  every slot has the slot number and the description of a timetable entry of the absent
  teacher for the day that is not free. The key is the one the code builds: the slot
  number, a bar, and the description (the text \<^verbatim>\<open>null\<close> for a missing one).
\<close>

theorem slots_from_seeds:
  "(\<forall>cs \<in> set (build_schedule classes subs). \<exists>row \<in> set classes. cs = filled_slot subs row)
   \<and> build_schedule classes subs =
       build_schedule classes (filter (\<lambda>s. sub_key s \<in> class_key ` set classes) subs)
   \<and> map (\<lambda>cs. cs\<lparr>available_substitutes := []\<rparr>) (build_schedule classes subs) =
       build_schedule classes []
   \<and> (findSubstitutes st a d = Inr rep \<and> slot' \<in> set (schedule rep) \<longrightarrow>
        (\<exists>tt \<in> set (teacher_timetable (tables st)).
           LOWER (tt_teacher_id tt) = LOWER (trim (or_empty a))
           \<and> UPPER (tt_day_of_week tt) = UPPER (or_empty (normalizeDay (Some (or_empty d))))
           \<and> \<not> tt_is_free tt
           \<and> slot_id slot' = tt_slot_id tt
           \<and> class_info slot' = tt_activity_description tt))"
proof -
  let ?F = "first_of_key [] classes"
  have sub: "set ?F \<subseteq> set classes" by (rule first_of_key_subset)
  have p1: "\<forall>cs \<in> set (build_schedule classes subs). \<exists>row \<in> set classes. cs = filled_slot subs row"
    using sub by (auto simp: build_schedule_eq)
  have "map (filled_slot (filter (\<lambda>s. sub_key s \<in> class_key ` set classes) subs)) ?F =
      map (filled_slot subs) ?F"
    using sub by (intro map_cong refl) (auto simp: filled_slot_matching)
  then have p2: "build_schedule classes subs =
       build_schedule classes (filter (\<lambda>s. sub_key s \<in> class_key ` set classes) subs)"
    by (simp only: build_schedule_eq)
  have "map (\<lambda>cs. cs\<lparr>available_substitutes := []\<rparr>)
          (sort_key (\<lambda>cs. slot_id (cs\<lparr>available_substitutes := []\<rparr>)) (map (filled_slot subs) ?F)) =
        sort_key slot_id (map (\<lambda>cs. cs\<lparr>available_substitutes := []\<rparr>) (map (filled_slot subs) ?F))"
    by (rule map_sort_key)
  then have p3: "map (\<lambda>cs. cs\<lparr>available_substitutes := []\<rparr>) (build_schedule classes subs) =
       build_schedule classes []"
    by (simp add: build_schedule_eq comp_def filled_slot_cleared)
  have p4: "\<exists>tt \<in> set (teacher_timetable (tables st)).
           LOWER (tt_teacher_id tt) = LOWER (trim (or_empty a))
           \<and> UPPER (tt_day_of_week tt) = UPPER (or_empty (normalizeDay (Some (or_empty d))))
           \<and> \<not> tt_is_free tt
           \<and> slot_id slot' = tt_slot_id tt
           \<and> class_info slot' = tt_activity_description tt"
    if res: "findSubstitutes st a d = Inr rep" and mem: "slot' \<in> set (schedule rep)"
  proof -
    let ?tid = "trim (or_empty a)" and ?day = "or_empty (normalizeDay (Some (or_empty d)))"
    from res mem obtain row where row: "row \<in> set (qClasses (tables st) ?tid ?day)"
      and filled: "slot' = filled_slot (qSubs (tables st) ?tid ?day) row"
      by (rule slot_in_schedule)
    from row obtain c where c: "c \<in> set (classes_to_cover (tables st) ?tid ?day)"
      and rc: "row = select_qClasses c"
      unfolding set_qClasses by blast
    from c obtain tt ts where tt: "tt \<in> set (teacher_timetable (tables st))"
      and m: "LOWER (tt_teacher_id tt) = LOWER ?tid" "UPPER (tt_day_of_week tt) = UPPER ?day"
        "\<not> tt_is_free tt"
      and sel: "c = select_c tt ts"
      unfolding classes_to_cover_iff by blast
    have "slot_id slot' = tt_slot_id tt" "class_info slot' = tt_activity_description tt"
      by (simp_all add: filled filled_slot_fields rc select_qClasses_fields sel select_c_def)
    with tt m show ?thesis by blast
  qed
  from p1 p2 p3 p4 show ?thesis by blast
qed

text \<open>
  A candidate row for a class that is not Alice's changes nothing, and slot 1 of the
  example is her algebra class.
\<close>

lemma ex_stray_unmatched:
  "filter (\<lambda>s. sub_key s \<in> class_key ` set (qClasses ex_db ''T1'' ''MON'')) [ex_stray_row] = []"
  by code_simp

theorem slots_from_seeds_witness:
  "build_schedule (qClasses ex_db ''T1'' ''MON'') [ex_stray_row] =
     build_schedule (qClasses ex_db ''T1'' ''MON'') []
   \<and> findSubstitutes ex_store (Some '' t1 '') (Some ''Monday'') = Inr ex_report
   \<and> ex_slot1 \<in> set (schedule ex_report)
   \<and> (\<exists>tt \<in> set (teacher_timetable (tables ex_store)).
        LOWER (tt_teacher_id tt) = LOWER (trim (or_empty (Some '' t1 '')))
        \<and> UPPER (tt_day_of_week tt) = UPPER (or_empty (normalizeDay (Some (or_empty (Some ''Monday'')))))
        \<and> \<not> tt_is_free tt
        \<and> slot_id ex_slot1 = tt_slot_id tt
        \<and> class_info ex_slot1 = tt_activity_description tt)"
proof -
  have "build_schedule (qClasses ex_db ''T1'' ''MON'') [ex_stray_row] =
      build_schedule (qClasses ex_db ''T1'' ''MON'')
        (filter (\<lambda>s. sub_key s \<in> class_key ` set (qClasses ex_db ''T1'' ''MON'')) [ex_stray_row])"
    by (rule slots_from_seeds[THEN conjunct2, THEN conjunct1])
  then have stray: "build_schedule (qClasses ex_db ''T1'' ''MON'') [ex_stray_row] =
      build_schedule (qClasses ex_db ''T1'' ''MON'') []"
    by (simp only: ex_stray_unmatched)
  have entry: "\<exists>tt \<in> set (teacher_timetable (tables ex_store)).
        LOWER (tt_teacher_id tt) = LOWER (trim (or_empty (Some '' t1 '')))
        \<and> UPPER (tt_day_of_week tt) = UPPER (or_empty (normalizeDay (Some (or_empty (Some ''Monday'')))))
        \<and> \<not> tt_is_free tt
        \<and> slot_id ex_slot1 = tt_slot_id tt
        \<and> class_info ex_slot1 = tt_activity_description tt"
    by (rule slots_from_seeds[THEN conjunct2, THEN conjunct2, THEN conjunct2, THEN mp,
          OF conjI[OF ex_resolution ex_slots(1)]])
  from stray ex_resolution ex_slots(1) entry show ?thesis by (intro conjI)
qed

section \<open>The outcomes without a schedule\<close>

lemma take_1_filter:
  "take 1 (filter P xs) = (case find P xs of None \<Rightarrow> [] | Some x \<Rightarrow> [x])"
  by (induction xs) simp_all

lemma concat_if_filter: "concat (map (\<lambda>x. if P x then [x] else []) xs) = filter P xs"
  by (induction xs) simp_all

lemma qAttendance_find:
  "qAttendance db p1 =
     (case find (\<lambda>t. LOWER (ta_teacher_id t) = LOWER p1) (teacher_attendance db) of
        None \<Rightarrow> [] | Some t \<Rightarrow> [t])"
  by (simp only: qAttendance_def concat_if_filter take_1_filter)

lemma qClasses_Nil:
  assumes "\<forall>tt \<in> set (teacher_timetable db).
     LOWER (tt_teacher_id tt) = LOWER p1 \<and> UPPER (tt_day_of_week tt) = UPPER p2 \<longrightarrow> tt_is_free tt"
  shows "qClasses db p1 p2 = []"
proof -
  have "c \<notin> set (classes_to_cover db p1 p2)" for c
    using assms unfolding classes_to_cover_iff by blast
  then have "classes_to_cover db p1 p2 = []"
    by (cases "classes_to_cover db p1 p2") auto
  then show ?thesis by (simp add: qClasses_def)
qed

text \<open>
  C5. For an identifier that is not empty after trimming and a day that is not empty
  after normalisation, and an attendance read that succeeds: when no attendance row has
  the identifier (without regard to case), the call returns, without throwing, the
  report named \<^verbatim>\<open>Teacher ID: <id>\<close> with subject detail N/A, an empty schedule and
  the note \<^verbatim>\<open>Teacher not found\<close>. When the teacher's row is found, its status (trimmed,
  in upper case) is not ABSENT and the subject-detail read succeeds, the call returns,
  without throwing, the teacher's name, the subject detail the store gives, an empty
  schedule and the note that the teacher is not marked as ABSENT; the timetable plays
  no part in it.
\<close>

theorem terminal_outcomes:
  fixes st a d
  defines "db \<equiv> tables st" and "tid \<equiv> trim (or_empty a)"
  assumes id: "tid \<noteq> []" and day: "\<not> falsy (normalizeDay (Some (or_empty d)))"
    and att: "rejects st ReadAttendance = None"
  shows
    "((\<forall>t \<in> set (teacher_attendance db). LOWER (ta_teacher_id t) \<noteq> LOWER tid) \<longrightarrow>
        findSubstitutes st a d =
          Inr \<lparr> absentName = ''Teacher ID: '' @ tid, absentTeacherSubjectDetail = ''N/A'',
                schedule = [], note_text = Some ''Teacher not found'' \<rparr>)
     \<and> (find (\<lambda>t. LOWER (ta_teacher_id t) = LOWER tid) (teacher_attendance db) = Some t
          \<and> toUpperCase (trim (or_empty (ta_attendance t))) \<noteq> ''ABSENT''
          \<and> rejects st ReadAbsentTeacherInfo = None \<longrightarrow>
        findSubstitutes st a d =
          Inr \<lparr> absentName =
                  (if falsy (ta_teacher_name t) then ''Teacher ID: '' @ tid
                   else or_empty (ta_teacher_name t)),
                absentTeacherSubjectDetail =
                  (case qAbsentTeacherInfo db tid of [] \<Rightarrow> ''N/A'' | detail # _ \<Rightarrow> detail),
                schedule = [],
                note_text = Some ''Teacher is not marked as ABSENT in attendance table'' \<rparr>)"
proof (intro conjI impI)
  assume "\<forall>t \<in> set (teacher_attendance db). LOWER (ta_teacher_id t) \<noteq> LOWER tid"
  then have "find (\<lambda>t. LOWER (ta_teacher_id t) = LOWER tid) (teacher_attendance db) = None"
    by (simp add: find_None_iff)
  then have "qAttendance db tid = []" by (simp add: qAttendance_find)
  with id day att show "findSubstitutes st a d =
          Inr \<lparr> absentName = ''Teacher ID: '' @ tid, absentTeacherSubjectDetail = ''N/A'',
                schedule = [], note_text = Some ''Teacher not found'' \<rparr>"
    by (simp add: findSubstitutes_def query_def db_def tid_def Let_def)
next
  assume h: "find (\<lambda>t. LOWER (ta_teacher_id t) = LOWER tid) (teacher_attendance db) = Some t
          \<and> toUpperCase (trim (or_empty (ta_attendance t))) \<noteq> ''ABSENT''
          \<and> rejects st ReadAbsentTeacherInfo = None"
  then have "qAttendance db tid = [t]" by (simp add: qAttendance_find)
  with id day att h show "findSubstitutes st a d =
          Inr \<lparr> absentName =
                  (if falsy (ta_teacher_name t) then ''Teacher ID: '' @ tid
                   else or_empty (ta_teacher_name t)),
                absentTeacherSubjectDetail =
                  (case qAbsentTeacherInfo db tid of [] \<Rightarrow> ''N/A'' | detail # _ \<Rightarrow> detail),
                schedule = [],
                note_text = Some ''Teacher is not marked as ABSENT in attendance table'' \<rparr>"
    by (simp add: findSubstitutes_def resolve_found_def query_def db_def tid_def Let_def)
qed

text \<open>The example's unknown teacher T9, and Bob, who is present and has a timetable.\<close>

lemma ex_unknown:
  "\<forall>t \<in> set (teacher_attendance (tables ex_store)).
     LOWER (ta_teacher_id t) \<noteq> LOWER (trim (or_empty (Some ''T9'')))"
  by code_simp

lemma ex_bob_found:
  "find (\<lambda>t. LOWER (ta_teacher_id t) = LOWER (trim (or_empty (Some ''t2''))))
     (teacher_attendance (tables ex_store))
     = Some \<lparr>ta_teacher_id = ''T2'', ta_teacher_name = Some ''Bob'', ta_attendance = Some ''PRESENT''\<rparr>
   \<and> toUpperCase (trim (or_empty (ta_attendance
         \<lparr>ta_teacher_id = ''T2'', ta_teacher_name = Some ''Bob'', ta_attendance = Some ''PRESENT''\<rparr>)))
       \<noteq> ''ABSENT''"
  by code_simp

lemma ex_bob_detail:
  "(if falsy (ta_teacher_name
        \<lparr>ta_teacher_id = ''T2'', ta_teacher_name = Some ''Bob'', ta_attendance = Some ''PRESENT''\<rparr>)
    then ''Teacher ID: '' @ trim (or_empty (Some ''t2''))
    else or_empty (ta_teacher_name
        \<lparr>ta_teacher_id = ''T2'', ta_teacher_name = Some ''Bob'', ta_attendance = Some ''PRESENT''\<rparr>))
     = ''Bob''
   \<and> (case qAbsentTeacherInfo (tables ex_store) (trim (or_empty (Some ''t2''))) of
         [] \<Rightarrow> ''N/A'' | detail # _ \<Rightarrow> detail) = ''CHEM -  | PHY - Physics''
   \<and> ''Teacher ID: '' @ trim (or_empty (Some ''T9'')) = ''Teacher ID: T9''"
  by code_simp

theorem terminal_outcomes_witness:
  "findSubstitutes ex_store (Some ''T9'') (Some ''Monday'') =
     Inr \<lparr> absentName = ''Teacher ID: T9'', absentTeacherSubjectDetail = ''N/A'',
           schedule = [], note_text = Some ''Teacher not found'' \<rparr>
   \<and> findSubstitutes ex_store (Some ''t2'') (Some ''Monday'') =
     Inr \<lparr> absentName = ''Bob'', absentTeacherSubjectDetail = ''CHEM -  | PHY - Physics'',
           schedule = [],
           note_text = Some ''Teacher is not marked as ABSENT in attendance table'' \<rparr>"
proof -
  from ex_valid_request have v9: "trim (or_empty (Some ''T9'')) \<noteq> []"
    and v2: "trim (or_empty (Some ''t2'')) \<noteq> []"
    and vd: "\<not> falsy (normalizeDay (Some (or_empty (Some ''Monday''))))"
    by simp_all
  have unknown: "findSubstitutes ex_store (Some ''T9'') (Some ''Monday'') =
      Inr \<lparr> absentName = ''Teacher ID: '' @ trim (or_empty (Some ''T9'')),
            absentTeacherSubjectDetail = ''N/A'',
            schedule = [], note_text = Some ''Teacher not found'' \<rparr>"
    by (rule terminal_outcomes[OF v9 vd ex_reads, THEN conjunct1, THEN mp, OF ex_unknown])
  have present: "findSubstitutes ex_store (Some ''t2'') (Some ''Monday'') =
      Inr \<lparr> absentName =
              (if falsy (ta_teacher_name
                   \<lparr>ta_teacher_id = ''T2'', ta_teacher_name = Some ''Bob'',
                      ta_attendance = Some ''PRESENT''\<rparr>)
               then ''Teacher ID: '' @ trim (or_empty (Some ''t2''))
               else or_empty (ta_teacher_name
                   \<lparr>ta_teacher_id = ''T2'', ta_teacher_name = Some ''Bob'',
                      ta_attendance = Some ''PRESENT''\<rparr>)),
            absentTeacherSubjectDetail =
              (case qAbsentTeacherInfo (tables ex_store) (trim (or_empty (Some ''t2''))) of
                 [] \<Rightarrow> ''N/A'' | detail # _ \<Rightarrow> detail),
            schedule = [],
            note_text = Some ''Teacher is not marked as ABSENT in attendance table'' \<rparr>"
    using ex_bob_found ex_reads
    by (intro terminal_outcomes[OF v2 vd ex_reads, THEN conjunct2, THEN mp]) simp
  from unknown present ex_bob_detail show ?thesis by (simp only:)
qed

text \<open>
  C6. For a known teacher who is absent and has no timetable entry for the day that is
  not free, with the three reads succeeding, the call returns, without throwing, the
  teacher's name and subject detail, an empty schedule and no note.
\<close>

theorem absent_without_classes:
  fixes st a d
  defines "db \<equiv> tables st" and "tid \<equiv> trim (or_empty a)"
    and "day \<equiv> or_empty (normalizeDay (Some (or_empty d)))"
  assumes id: "tid \<noteq> []" and dayok: "\<not> falsy (normalizeDay (Some (or_empty d)))"
    and reads: "rejects st ReadAttendance = None" "rejects st ReadAbsentTeacherInfo = None"
      "rejects st ReadClasses = None"
    and known: "find (\<lambda>t. LOWER (ta_teacher_id t) = LOWER tid) (teacher_attendance db) = Some t"
    and absent: "toUpperCase (trim (or_empty (ta_attendance t))) = ''ABSENT''"
    and none: "\<forall>tt \<in> set (teacher_timetable db).
       LOWER (tt_teacher_id tt) = LOWER tid \<and> UPPER (tt_day_of_week tt) = UPPER day
         \<longrightarrow> tt_is_free tt"
  shows
    "findSubstitutes st a d =
       Inr \<lparr> absentName =
               (if falsy (ta_teacher_name t) then ''Teacher ID: '' @ tid
                else or_empty (ta_teacher_name t)),
             absentTeacherSubjectDetail =
               (case qAbsentTeacherInfo db tid of [] \<Rightarrow> ''N/A'' | detail # _ \<Rightarrow> detail),
             schedule = [],
             note_text = None \<rparr>"
proof -
  from known have "qAttendance db tid = [t]" by (simp add: qAttendance_find)
  moreover from none have "qClasses db tid day = []" by (rule qClasses_Nil)
  ultimately show ?thesis
    using id dayok reads absent
    by (simp add: findSubstitutes_def resolve_found_def try_catch_def try_block_def query_def
          db_def tid_def day_def Let_def)
qed


text \<open>Alice's Tuesday: her only entry is free.\<close>

lemma ex_alice_found:
  "find (\<lambda>t. LOWER (ta_teacher_id t) = LOWER (trim (or_empty (Some '' t1 ''))))
     (teacher_attendance (tables ex_store))
     = Some \<lparr>ta_teacher_id = ''T1'', ta_teacher_name = Some ''Alice'', ta_attendance = Some ''Absent''\<rparr>
   \<and> toUpperCase (trim (or_empty (ta_attendance
         \<lparr>ta_teacher_id = ''T1'', ta_teacher_name = Some ''Alice'', ta_attendance = Some ''Absent''\<rparr>)))
       = ''ABSENT''"
  by code_simp

lemma ex_tuesday_free:
  "\<forall>tt \<in> set (teacher_timetable (tables ex_store)).
     LOWER (tt_teacher_id tt) = LOWER (trim (or_empty (Some '' t1 '')))
     \<and> UPPER (tt_day_of_week tt) = UPPER (or_empty (normalizeDay (Some (or_empty (Some ''tuesday'')))))
     \<longrightarrow> tt_is_free tt"
  by code_simp

lemma ex_alice_detail:
  "(if falsy (ta_teacher_name
        \<lparr>ta_teacher_id = ''T1'', ta_teacher_name = Some ''Alice'', ta_attendance = Some ''Absent''\<rparr>)
    then ''Teacher ID: '' @ trim (or_empty (Some '' t1 ''))
    else or_empty (ta_teacher_name
        \<lparr>ta_teacher_id = ''T1'', ta_teacher_name = Some ''Alice'', ta_attendance = Some ''Absent''\<rparr>))
     = ''Alice''
   \<and> (case qAbsentTeacherInfo (tables ex_store) (trim (or_empty (Some '' t1 ''))) of
         [] \<Rightarrow> ''N/A'' | detail # _ \<Rightarrow> detail) = ''MATH101 - Algebra''"
  by code_simp

theorem absent_without_classes_witness:
  "findSubstitutes ex_store (Some '' t1 '') (Some ''tuesday'') =
     Inr \<lparr> absentName = ''Alice'', absentTeacherSubjectDetail = ''MATH101 - Algebra'',
           schedule = [], note_text = None \<rparr>"
proof -
  from ex_valid_request have v1: "trim (or_empty (Some '' t1 '')) \<noteq> []"
    and vd: "\<not> falsy (normalizeDay (Some (or_empty (Some ''tuesday''))))"
    by simp_all
  from ex_alice_found have known:
    "find (\<lambda>t. LOWER (ta_teacher_id t) = LOWER (trim (or_empty (Some '' t1 ''))))
       (teacher_attendance (tables ex_store))
     = Some \<lparr>ta_teacher_id = ''T1'', ta_teacher_name = Some ''Alice'', ta_attendance = Some ''Absent''\<rparr>"
    and absent: "toUpperCase (trim (or_empty (ta_attendance
         \<lparr>ta_teacher_id = ''T1'', ta_teacher_name = Some ''Alice'', ta_attendance = Some ''Absent''\<rparr>)))
       = ''ABSENT''"
    by simp_all
  note absent_without_classes[OF v1 vd ex_reads ex_reads ex_reads known absent ex_tuesday_free]
  with ex_alice_detail show ?thesis by (simp only:)
qed

section \<open>How many slots a schedule has\<close>

text \<open>
  Class rows with pairwise distinct keys give one slot each, in ascending order of the
  slot number. Rows with pairwise distinct pairs of slot number and description have
  distinct keys when no description is missing.
\<close>

lemma distinct_pairs_keys:
  assumes "distinct (map (\<lambda>row. (c_slot_id row, c_class_to_cover row)) classes)"
    and "\<forall>row \<in> set classes. c_class_to_cover row \<noteq> None"
  shows "distinct (map class_key classes)"
proof -
  have "inj_on class_key (set classes)"
  proof (rule inj_onI)
    fix r r' assume r: "r \<in> set classes" and r': "r' \<in> set classes"
      and k: "class_key r = class_key r'"
    from k r r' assms(2) have "(c_slot_id r, c_class_to_cover r) = (c_slot_id r', c_class_to_cover r')"
      by (auto simp: key_of_eq show_text_eq)
    moreover from assms(1) have "inj_on (\<lambda>row. (c_slot_id row, c_class_to_cover row)) (set classes)"
      by (simp add: distinct_map)
    ultimately show "r = r'" using r r' by (auto dest: inj_onD)
  qed
  moreover from assms(1) have "distinct classes" by (simp add: distinct_map)
  ultimately show ?thesis by (simp add: distinct_map)
qed

lemma schedule_of_distinct_keys:
  assumes "distinct (map class_key classes)"
  shows "length (build_schedule classes subs) = length classes
     \<and> sorted (map slot_id (build_schedule classes subs))
     \<and> set (build_schedule classes subs) = filled_slot subs ` set classes"
  using assms by (simp add: build_schedule_eq first_of_key_distinct)

lemma schedule_sorted: "sorted (map slot_id (build_schedule classes subs))"
  by (simp add: build_schedule_def)

lemma length_join_slots:
  "length (concat (map (\<lambda>ts. if P ts then (if c then [f ts] else []) else []) tss)) =
     (if c then length (filter P tss) else 0)"
  by (induction tss) simp_all

lemma length_classes_to_cover:
  assumes "\<forall>tt \<in> set (classes_of db p1 p2).
     length (filter (\<lambda>ts. ts_slot_id ts = tt_slot_id tt) (time_slots db)) = 1"
  shows "length (classes_to_cover db p1 p2) = length (classes_of db p1 p2)"
proof -
  have "\<forall>tt \<in> set (filter Q tts). length (filter (\<lambda>ts. ts_slot_id ts = tt_slot_id tt) tss) = 1 \<Longrightarrow>
      length (concat (map (\<lambda>tt. concat (map (\<lambda>ts. if ts_slot_id ts = tt_slot_id tt
            then (if Q tt then [select_c tt ts] else []) else []) tss)) tts))
        = length (filter Q tts)" for Q tts tss
    by (induction tts) (simp_all add: length_join_slots)
  from this[of "\<lambda>tt. LOWER (tt_teacher_id tt) = LOWER p1 \<and> UPPER (tt_day_of_week tt) = UPPER p2
      \<and> tt_is_free tt = False" "teacher_timetable db" "time_slots db"] assms
  show ?thesis
    by (simp add: classes_to_cover_def classes_of_def)
qed

lemma length_qClasses:
  "length (qClasses db p1 p2) = length (classes_to_cover db p1 p2)"
  by (simp add: qClasses_def)

text \<open>What the call returns for a known teacher who is absent, when the reads succeed.\<close>

lemma findSubstitutes_absent:
  fixes st a d
  defines "db \<equiv> tables st" and "tid \<equiv> trim (or_empty a)"
    and "day \<equiv> or_empty (normalizeDay (Some (or_empty d)))"
  assumes id: "tid \<noteq> []" and dayok: "\<not> falsy (normalizeDay (Some (or_empty d)))"
    and reads: "\<forall>r. rejects st r = None"
    and known: "find (\<lambda>t. LOWER (ta_teacher_id t) = LOWER tid) (teacher_attendance db) = Some t"
    and absent: "toUpperCase (trim (or_empty (ta_attendance t))) = ''ABSENT''"
  shows "\<exists>rep. findSubstitutes st a d = Inr rep
     \<and> schedule rep = build_schedule (qClasses db tid day) (qSubs db tid day)
     \<and> note_text rep = None"
proof -
  from known have att: "qAttendance db tid = [t]" by (simp add: qAttendance_find)
  have empty: "build_schedule [] subs = []" for subs
    by (simp add: build_schedule_eq)
  show ?thesis
    using id dayok reads absent att empty
    by (simp add: findSubstitutes_def resolve_found_def try_catch_def try_block_def query_def
          db_def tid_def day_def Let_def)
qed

text \<open>
  C4, as amended. For a known teacher who is absent, with the reads succeeding, the
  class rows are the teacher's timetable entries of the day that are not free, each
  joined to the rows of its slot in the slot table: as many rows as entries when every
  entry's slot is listed exactly once. The schedule has one slot for every key among the
  class rows, made from the first row of the key, in ascending order of the slot number.
  When the N class rows have pairwise distinct pairs of slot number and description and
  no description is missing, the schedule has exactly N slots, one for each row.
\<close>

theorem schedule_slots:
  fixes st a d
  defines "db \<equiv> tables st" and "tid \<equiv> trim (or_empty a)"
    and "day \<equiv> or_empty (normalizeDay (Some (or_empty d)))"
  defines "classes \<equiv> qClasses db tid day"
  assumes id: "tid \<noteq> []" and dayok: "\<not> falsy (normalizeDay (Some (or_empty d)))"
    and reads: "\<forall>r. rejects st r = None"
    and known: "find (\<lambda>t. LOWER (ta_teacher_id t) = LOWER tid) (teacher_attendance db) = Some t"
    and absent: "toUpperCase (trim (or_empty (ta_attendance t))) = ''ABSENT''"
  shows
    "\<exists>rep. findSubstitutes st a d = Inr rep
       \<and> schedule rep =
           sort_key slot_id (map (filled_slot (qSubs db tid day)) (first_of_key [] classes))
       \<and> sorted (map slot_id (schedule rep))
       \<and> (distinct (map (\<lambda>row. (c_slot_id row, c_class_to_cover row)) classes)
            \<and> (\<forall>row \<in> set classes. c_class_to_cover row \<noteq> None)
            \<longrightarrow> length (schedule rep) = length classes
                \<and> set (schedule rep) = filled_slot (qSubs db tid day) ` set classes)
       \<and> ((\<forall>tt \<in> set (classes_of db tid day).
              length (filter (\<lambda>ts. ts_slot_id ts = tt_slot_id tt) (time_slots db)) = 1)
            \<longrightarrow> length classes = length (classes_of db tid day))"
proof -
  from findSubstitutes_absent[OF id[unfolded tid_def] dayok reads
      known[unfolded db_def tid_def] absent]
  obtain rep where res: "findSubstitutes st a d = Inr rep"
    and sch: "schedule rep = build_schedule classes (qSubs db tid day)"
    unfolding classes_def db_def tid_def day_def by blast
  have collapse: "schedule rep =
      sort_key slot_id (map (filled_slot (qSubs db tid day)) (first_of_key [] classes))"
    by (simp only: sch build_schedule_eq)
  have ordered: "sorted (map slot_id (schedule rep))"
    by (simp only: sch schedule_sorted)
  have count: "length (schedule rep) = length classes
      \<and> set (schedule rep) = filled_slot (qSubs db tid day) ` set classes"
    if "distinct (map (\<lambda>row. (c_slot_id row, c_class_to_cover row)) classes)
        \<and> (\<forall>row \<in> set classes. c_class_to_cover row \<noteq> None)"
  proof -
    from that have "distinct (map class_key classes)"
      by (intro distinct_pairs_keys) simp_all
    then show ?thesis
      unfolding sch using schedule_of_distinct_keys by blast
  qed
  have entries: "length classes = length (classes_of db tid day)"
    if "\<forall>tt \<in> set (classes_of db tid day).
          length (filter (\<lambda>ts. ts_slot_id ts = tt_slot_id tt) (time_slots db)) = 1"
    using that by (simp only: classes_def length_qClasses length_classes_to_cover)
  from res collapse ordered count entries show ?thesis by blast
qed

text \<open>Alice's Monday in the example: two class rows, two slots.\<close>

lemma ex_all_reads: "\<forall>r. rejects ex_store r = None"
  by (simp add: ex_store_def)

lemma ex_monday_classes:
  "distinct (map (\<lambda>row. (c_slot_id row, c_class_to_cover row))
      (qClasses (tables ex_store) (trim (or_empty (Some '' t1 '')))
         (or_empty (normalizeDay (Some (or_empty (Some ''Monday'')))))))
   \<and> (\<forall>row \<in> set (qClasses (tables ex_store) (trim (or_empty (Some '' t1 '')))
         (or_empty (normalizeDay (Some (or_empty (Some ''Monday'')))))).
        c_class_to_cover row \<noteq> None)"
  by code_simp

lemma ex_monday_count:
  "length (qClasses (tables ex_store) (trim (or_empty (Some '' t1 '')))
      (or_empty (normalizeDay (Some (or_empty (Some ''Monday'')))))) = 2"
  by code_simp

lemma ex_monday_slots_listed:
  "\<forall>tt \<in> set (classes_of (tables ex_store) (trim (or_empty (Some '' t1 '')))
        (or_empty (normalizeDay (Some (or_empty (Some ''Monday'')))))).
     length (filter (\<lambda>ts. ts_slot_id ts = tt_slot_id tt) (time_slots (tables ex_store))) = 1"
  by code_simp

theorem schedule_slots_witness:
  "findSubstitutes ex_store (Some '' t1 '') (Some ''Monday'') = Inr ex_report
   \<and> length (classes_of (tables ex_store) (trim (or_empty (Some '' t1 '')))
        (or_empty (normalizeDay (Some (or_empty (Some ''Monday'')))))) = 2
   \<and> length (schedule ex_report) = 2
   \<and> sorted (map slot_id (schedule ex_report))"
proof -
  let ?classes = "qClasses (tables ex_store) (trim (or_empty (Some '' t1 '')))
      (or_empty (normalizeDay (Some (or_empty (Some ''Monday'')))))"
  let ?entries = "classes_of (tables ex_store) (trim (or_empty (Some '' t1 '')))
      (or_empty (normalizeDay (Some (or_empty (Some ''Monday'')))))"
  from ex_valid_request have v1: "trim (or_empty (Some '' t1 '')) \<noteq> []"
    and vd: "\<not> falsy (normalizeDay (Some (or_empty (Some ''Monday''))))"
    by simp_all
  from ex_alice_found have known:
    "find (\<lambda>t. LOWER (ta_teacher_id t) = LOWER (trim (or_empty (Some '' t1 ''))))
       (teacher_attendance (tables ex_store))
     = Some \<lparr>ta_teacher_id = ''T1'', ta_teacher_name = Some ''Alice'', ta_attendance = Some ''Absent''\<rparr>"
    and absent: "toUpperCase (trim (or_empty (ta_attendance
         \<lparr>ta_teacher_id = ''T1'', ta_teacher_name = Some ''Alice'', ta_attendance = Some ''Absent''\<rparr>)))
       = ''ABSENT''"
    by simp_all
  from schedule_slots[OF v1 vd ex_all_reads known absent]
  obtain rep where res: "findSubstitutes ex_store (Some '' t1 '') (Some ''Monday'') = Inr rep"
    and ordered: "sorted (map slot_id (schedule rep))"
    and count: "distinct (map (\<lambda>row. (c_slot_id row, c_class_to_cover row)) ?classes)
      \<and> (\<forall>row \<in> set ?classes. c_class_to_cover row \<noteq> None)
      \<longrightarrow> length (schedule rep) = length ?classes"
    and entries: "(\<forall>tt \<in> set ?entries.
          length (filter (\<lambda>ts. ts_slot_id ts = tt_slot_id tt) (time_slots (tables ex_store))) = 1)
      \<longrightarrow> length ?classes = length ?entries"
    by blast
  from res ex_resolution have rep: "rep = ex_report" by simp
  from mp[OF count ex_monday_classes] have two: "length (schedule rep) = 2"
    by (simp only: ex_monday_count)
  from mp[OF entries ex_monday_slots_listed] have "length ?entries = 2"
    by (simp only: ex_monday_count)
  with ex_resolution two ordered show ?thesis
    unfolding rep by (intro conjI)
qed

text \<open>
  C4 as it is stated fails at two inputs. A class in a slot that the slot table does
  not list is no class row, since the query joins the timetable to the slot table: the
  teacher has one entry that is not free, and the schedule is empty. And the key prints
  a missing description as the text \<^verbatim>\<open>null\<close>, so a class without a description and a class
  whose description is the four letters \<^verbatim>\<open>null\<close>, both in slot 1, share the key
  \<^verbatim>\<open>1|null\<close>: the two entries have distinct pairs of slot number and description, and
  the schedule has one slot.
\<close>

theorem schedule_count_counterexample:
  "length (classes_of orphan_db ''T1'' ''MON'') = 1
   \<and> findSubstitutes orphan_store (Some ''T1'') (Some ''MON'') = Inr orphan_report
   \<and> length (schedule orphan_report) = 0
   \<and> map (\<lambda>tt. (tt_slot_id tt, tt_activity_description tt)) (classes_of null_db ''T1'' ''MON'')
       = [(1, None), (1, Some ''null'')]
   \<and> distinct [(1 :: int, None :: string option), (1, Some ''null'')]
   \<and> map class_key (qClasses null_db ''T1'' ''MON'') = [''1|null'', ''1|null'']
   \<and> findSubstitutes null_store (Some ''T1'') (Some ''MON'') = Inr null_report
   \<and> length (schedule null_report) = 1"
  by code_simp

section \<open>Rejected reads\<close>

text \<open>What a rejected read leads to.\<close>

lemma rejected_first_phase:
  assumes "trim (or_empty a) \<noteq> []" and "\<not> falsy (normalizeDay (Some (or_empty d)))"
  shows "rejects st ReadAttendance = Some e \<Longrightarrow> findSubstitutes st a d = Inl (DriverError e)"
    and "rejects st ReadAttendance = None \<Longrightarrow>
         qAttendance (tables st) (trim (or_empty a)) \<noteq> [] \<Longrightarrow>
         rejects st ReadAbsentTeacherInfo = Some e \<Longrightarrow>
         findSubstitutes st a d = Inl (DriverError e)"
  using assms
  by (auto simp: findSubstitutes_def resolve_found_def query_def Let_def split: list.splits)

lemma rejected_second_phase:
  "rejects st ReadClasses = Some e \<Longrightarrow>
     try_catch (try_block st tid day name detail) =
       Inl (Error ''Database query failed during substitution search.'')"
  "rejects st ReadClasses = None \<Longrightarrow> qClasses (tables st) tid day \<noteq> [] \<Longrightarrow>
     rejects st ReadSubs = Some e \<Longrightarrow>
     try_catch (try_block st tid day name detail) =
       Inl (Error ''Database query failed during substitution search.'')"
  by (simp_all add: try_catch_def try_block_def query_def)

lemma no_report_after_rejection:
  assumes "findSubstitutes st a d = Inr rep"
  shows "rejects st ReadAttendance = None"
    and "qAttendance (tables st) (trim (or_empty a)) \<noteq> [] \<Longrightarrow> rejects st ReadAbsentTeacherInfo = None"
    and "schedule rep \<noteq> [] \<Longrightarrow> rejects st ReadClasses = None \<and> rejects st ReadSubs = None"
  using assms
  by (auto simp: findSubstitutes_def resolve_found_def try_catch_def try_block_def query_def
        Let_def split: if_splits sum.splits list.splits option.splits)

text \<open>
  C7 fails for the two reads of the first phase, which stand outside the \<^verbatim>\<open>try\<close> block:
  when the attendance read or the subject-detail read is rejected, the call throws the
  driver's own error, which differs with the cause, and not the one wrapped failure.
  When the read of the classes or of the candidates is rejected, it throws the wrapped
  failure. No rejected read leaves a report (\<open>no_report_after_rejection\<close>).
\<close>

theorem first_phase_failure_not_wrapped:
  "findSubstitutes (rejecting_store ReadAttendance ''ECONNRESET'') (Some ''T1'') (Some ''MON'')
     = Inl (DriverError ''ECONNRESET'')
   \<and> findSubstitutes (rejecting_store ReadAttendance ''ER_LOCK_DEADLOCK'') (Some ''T1'') (Some ''MON'')
     = Inl (DriverError ''ER_LOCK_DEADLOCK'')
   \<and> findSubstitutes (rejecting_store ReadAbsentTeacherInfo ''ECONNRESET'') (Some ''T1'') (Some ''MON'')
     = Inl (DriverError ''ECONNRESET'')
   \<and> findSubstitutes (rejecting_store ReadClasses ''ECONNRESET'') (Some ''T1'') (Some ''MON'')
     = Inl (Error ''Database query failed during substitution search.'')
   \<and> findSubstitutes (rejecting_store ReadSubs ''ECONNRESET'') (Some ''T1'') (Some ''MON'')
     = Inl (Error ''Database query failed during substitution search.'')"
  by code_simp

end
